theory Spec2Isabelle
  imports Complex_Main
begin

chapter \<open>CodeMentor: retrieval, response parsing and interview sessions\<close>

text \<open>
  A shallow embedding of the interview mode service, the vector store service, the
  retrieval pipeline and the two response parsers. What lies outside the code (the
  embedding provider, the native index, the completion provider, \<open>JSON.parse\<close>, the
  clock and the identifier generator) is a parameter of the operation that uses it;
  exceptions are values, and the external calls an operation makes are returned with its
  result.
\<close>

section \<open>JavaScript strings and the regular expressions the code uses\<close>

text \<open>
  A JavaScript string is a sequence of UTF-16 code units. It is modelled as a
  \<^typ>\<open>string\<close>, each \<^typ>\<open>char\<close> standing for the code unit of the same
  number, so the model covers the strings whose code units are below 256. On that alphabet
  the definitions below are the ECMAScript ones.
\<close>

definition is_space :: "char \<Rightarrow> bool" where
  \<comment> \<open>\<open>\s\<close> and the characters \<open>trim\<close> strips: TAB, LF, VT, FF, CR, SP, NBSP.\<close>
  "is_space c = (c \<in> set [CHR 0x09, CHR 0x0A, CHR 0x0B, CHR 0x0C, CHR 0x0D, CHR 0x20, CHR 0xA0])"

definition is_digit :: "char \<Rightarrow> bool" where
  "is_digit c = (c \<in> set ''0123456789'')"

definition canonicalize :: "char \<Rightarrow> char" where
  \<comment> \<open>Case folding of the \<open>i\<close> flag (upper-casing). The two code units whose upper case
      lies outside the alphabet (0xB5, 0xFF) fold to no other unit and are left as they are.\<close>
  "canonicalize c =
     (let n = (of_char c :: nat)
      in if (97 \<le> n \<and> n \<le> 122) \<or> (224 \<le> n \<and> n \<le> 254 \<and> n \<noteq> 247)
         then char_of (n - 32) else c)"



definition trim :: "string \<Rightarrow> string" where
  "trim s = rev (dropWhile is_space (rev (dropWhile is_space s)))"

fun starts_with :: "string \<Rightarrow> string \<Rightarrow> bool" where
  "starts_with [] s = True"
| "starts_with (p # ps) [] = False"
| "starts_with (p # ps) (c # cs) = (p = c \<and> starts_with ps cs)"

fun starts_with_ci :: "string \<Rightarrow> string \<Rightarrow> bool" where
  "starts_with_ci [] s = True"
| "starts_with_ci (p # ps) [] = False"
| "starts_with_ci (p # ps) (c # cs) = (canonicalize p = canonicalize c \<and> starts_with_ci ps cs)"


fun split_lines :: "string \<Rightarrow> string list" where
  \<comment> \<open>\<open>s.split('\n')\<close>\<close>
  "split_lines [] = [[]]"
| "split_lines (c # cs) =
     (if c = CHR 0x0A then [] # split_lines cs
      else (case split_lines cs of [] \<Rightarrow> [[c]] | l # ls \<Rightarrow> (c # l) # ls))"

fun join :: "string \<Rightarrow> string list \<Rightarrow> string" where
  \<comment> \<open>\<open>xs.join(sep)\<close>\<close>
  "join sep [] = []"
| "join sep [x] = x"
| "join sep (x # y # ys) = x @ sep @ join sep (y # ys)"

definition substring0 :: "nat \<Rightarrow> string \<Rightarrow> string" where
  \<comment> \<open>\<open>s.substring(0, n)\<close>\<close>
  "substring0 n s = take n s"

datatype cclass =
    AnyChar                 \<comment> \<open>\<open>[\s\S]\<close>\<close>
  | Space                   \<comment> \<open>\<open>\s\<close>\<close>
  | Digit                   \<comment> \<open>\<open>\d\<close>\<close>
  | OneOf string            \<comment> \<open>\<open>[abc]\<close>\<close>
  | NoneOf string           \<comment> \<open>\<open>[^abc]\<close>\<close>
  | Either cclass cclass    \<comment> \<open>union of two classes inside one bracket\<close>

fun in_class :: "cclass \<Rightarrow> char \<Rightarrow> bool" where
  "in_class AnyChar c = True"
| "in_class Space c = is_space c"
| "in_class Digit c = is_digit c"
| "in_class (OneOf cs) c = (c \<in> set cs)"
| "in_class (NoneOf cs) c = (c \<notin> set cs)"
| "in_class (Either a b) c = (in_class a c \<or> in_class b c)"

datatype rx =
    Lit string              \<comment> \<open>literal text, no \<open>i\<close> flag\<close>
  | LitI string             \<comment> \<open>literal text under the \<open>i\<close> flag\<close>
  | Cls cclass              \<comment> \<open>one character of a class\<close>
  | Star cclass             \<comment> \<open>greedy \<open>c*\<close>\<close>
  | StarLazy cclass         \<comment> \<open>lazy \<open>c*?\<close>\<close>
  | Opt rx                  \<comment> \<open>greedy \<open>r?\<close>\<close>
  | Seq rx rx
  | Alt rx rx
  | Cap rx                  \<comment> \<open>capture group 1\<close>
  | Ahead rx                \<comment> \<open>positive lookahead \<open>(?=r)\<close>\<close>
  | Eos                     \<comment> \<open>\<open>$\<close> without the \<open>m\<close> flag\<close>

text \<open>
  A match state is the input still to be read and the text of capture group 1, if the
  group has matched. \<open>run r st\<close> lists the states in which a match of \<open>r\<close> from \<open>st\<close> can
  end, in the order in which a backtracking matcher tries them: its head is the match
  the engine returns.
\<close>

type_synonym mstate = "string \<times> string option"

fun run :: "rx \<Rightarrow> mstate \<Rightarrow> mstate list" where
  "run (Lit p) (s, g) = (if starts_with p s then [(drop (length p) s, g)] else [])"
| "run (LitI p) (s, g) = (if starts_with_ci p s then [(drop (length p) s, g)] else [])"
| "run (Cls k) (s, g) =
     (case s of [] \<Rightarrow> [] | c # cs \<Rightarrow> if in_class k c then [(cs, g)] else [])"
| "run (Star k) (s, g) =
     map (\<lambda>n. (drop n s, g)) (rev [0 ..< Suc (length (takeWhile (in_class k) s))])"
| "run (StarLazy k) (s, g) =
     map (\<lambda>n. (drop n s, g)) [0 ..< Suc (length (takeWhile (in_class k) s))]"
| "run (Opt r) st = run r st @ [st]"
| "run (Seq a b) st = concat (map (run b) (run a st))"
| "run (Alt a b) st = run a st @ run b st"
| "run (Cap r) (s, g) =
     map (\<lambda>(s', g'). (s', Some (take (length s - length s') s))) (run r (s, g))"
| "run (Ahead r) (s, g) = (case run r (s, g) of [] \<Rightarrow> [] | (s', g') # _ \<Rightarrow> [(s, g')])"
| "run Eos (s, g) = (if s = [] then [(s, g)] else [])"

fun exec :: "rx \<Rightarrow> string \<Rightarrow> mstate option" where
  \<comment> \<open>The leftmost match: the first start position at which \<open>run\<close> succeeds.\<close>
  "exec r [] = (case run r ([], None) of [] \<Rightarrow> None | m # _ \<Rightarrow> Some m)"
| "exec r (c # cs) = (case run r (c # cs, None) of [] \<Rightarrow> exec r cs | m # _ \<Rightarrow> Some m)"

definition match_rx :: "rx \<Rightarrow> string \<Rightarrow> string option option" where
  \<comment> \<open>\<open>s.match(r)\<close> for a regex without the \<open>g\<close> flag: \<open>None\<close> is \<open>null\<close>, otherwise
      element 1 of the match array (\<open>None\<close> when the group is \<open>undefined\<close>).\<close>
  "match_rx r s = map_option snd (exec r s)"

definition match_at_start :: "rx \<Rightarrow> string \<Rightarrow> mstate option" where
  \<comment> \<open>A regex that begins with \<open>^\<close> (no \<open>m\<close> flag) is tried at position 0 only.\<close>
  "match_at_start r s = (case run r (s, None) of [] \<Rightarrow> None | m # _ \<Rightarrow> Some m)"

definition replace_at_start :: "rx \<Rightarrow> string \<Rightarrow> string" where
  \<comment> \<open>\<open>s.replace(/^r/, '')\<close>\<close>
  "replace_at_start r s = (case match_at_start r s of None \<Rightarrow> s | Some (rest, g) \<Rightarrow> rest)"

fun remove_all :: "rx \<Rightarrow> nat \<Rightarrow> string \<Rightarrow> string" where
  \<comment> \<open>\<open>s.replace(/r/g, '')\<close>: \<open>remove_all r 0 s\<close>. The counter is the number of characters
      of the current match still to be dropped. After an empty match the search moves on
      by one character, as the \<open>g\<close> flag does.\<close>
  "remove_all r k [] = []"
| "remove_all r (Suc k) (c # cs) = remove_all r k cs"
| "remove_all r 0 (c # cs) =
     (case run r (c # cs, None) of
        [] \<Rightarrow> c # remove_all r 0 cs
      | (rest, g) # _ \<Rightarrow>
          (let n = length (c # cs) - length rest
           in if n = 0 then c # remove_all r 0 cs else remove_all r (n - 1) cs))"

section \<open>JavaScript numbers\<close>

text \<open>
  A JavaScript number. Scores and thresholds are only compared, never computed with, so a
  finite double is modelled by the real number it denotes.
\<close>

datatype number = NaN | NegInf | Fin real | PosInf

fun num_ge :: "number \<Rightarrow> number \<Rightarrow> bool" where
  \<comment> \<open>\<open>a >= b\<close>\<close>
  "num_ge NaN b = False"
| "num_ge a NaN = False"
| "num_ge PosInf b = True"
| "num_ge a NegInf = True"
| "num_ge NegInf b = False"
| "num_ge a PosInf = False"
| "num_ge (Fin x) (Fin y) = (x \<ge> y)"

fun num_lt :: "number \<Rightarrow> number \<Rightarrow> bool" where
  \<comment> \<open>\<open>a < b\<close>\<close>
  "num_lt NaN b = False"
| "num_lt a NaN = False"
| "num_lt PosInf b = False"
| "num_lt a NegInf = False"
| "num_lt NegInf b = True"
| "num_lt a PosInf = True"
| "num_lt (Fin x) (Fin y) = (x < y)"

definition num_le :: "number \<Rightarrow> number \<Rightarrow> bool" where
  \<comment> \<open>\<open>a <= b\<close>\<close>
  "num_le a b = num_ge b a"


section \<open>Response parsers\<close>

fun seqs :: "rx list \<Rightarrow> rx" where
  \<comment> \<open>the parts of a regex, one after the other\<close>
  "seqs [] = Lit []"
| "seqs [r] = r"
| "seqs (r # rs) = Seq r (seqs rs)"

fun alts :: "rx list \<Rightarrow> rx" where
  \<comment> \<open>\<open>a|b|c\<close>\<close>
  "alts [] = Lit []"
| "alts [r] = r"
| "alts (r # rs) = Alt r (alts rs)"

definition numbered_section_rx :: "string \<Rightarrow> string \<Rightarrow> rx" where
  \<comment> \<open>\<open>/HEADING\s*([\s\S]*?)(?=NEXT|$)/i\<close>\<close>
  "numbered_section_rx heading next_heading =
     seqs [LitI heading, Star Space, Cap (StarLazy AnyChar), Ahead (alts [LitI next_heading, Eos])]"

definition understanding_rx :: rx where
  "understanding_rx = numbered_section_rx ''### 1. PROBLEM UNDERSTANDING'' ''### 2.''"

definition brute_rx :: rx where
  "brute_rx = numbered_section_rx ''### 2. BRUTE FORCE APPROACH'' ''### 3.''"

definition optimized_rx :: rx where
  "optimized_rx = numbered_section_rx ''### 3. OPTIMIZED APPROACH'' ''### 4.''"

definition time_rx :: rx where
  "time_rx = numbered_section_rx ''### 4. TIME COMPLEXITY'' ''### 5.''"

definition space_rx :: rx where
  "space_rx = numbered_section_rx ''### 5. SPACE COMPLEXITY'' ''### 6.''"

definition dry_run_rx :: rx where
  "dry_run_rx = numbered_section_rx ''### 8. DRY RUN EXAMPLE'' ''### 9.''"

definition heading_prefix :: "rx list" where
  \<comment> \<open>\<open>###?\s*\d*\.?\s*\<close>\<close>
  "heading_prefix = [LitI ''##'', Opt (LitI ''#''), Star Space, Star Digit, Opt (LitI ''.''), Star Space]"

definition edge_rx :: rx where
  \<comment> \<open>\<open>/###?\s*\d*\.?\s*EDGE CASES?\s*([\s\S]*?)(?=### 7\.|###|$)/i\<close>\<close>
  "edge_rx = seqs (heading_prefix @
     [LitI ''EDGE CASE'', Opt (LitI ''S''), Star Space, Cap (StarLazy AnyChar),
      Ahead (alts [LitI ''### 7.'', LitI ''###'', Eos])])"

definition code_rx :: rx where
  \<comment> \<open>\<open>/```java\s*([\s\S]*?)```/\<close>\<close>
  "code_rx = seqs [Lit ''```java'', Star Space, Cap (StarLazy AnyChar), Lit ''```'']"

definition follow_up_rx :: rx where
  \<comment> \<open>\<open>/###?\s*\d*\.?\s*FOLLOW[- ]?UP QUESTIONS?\s*([\s\S]*?)(?=###|$)/i\<close>\<close>
  "follow_up_rx = seqs (heading_prefix @
     [LitI ''FOLLOW'', Opt (Cls (OneOf ''- '')), LitI ''UP QUESTION'', Opt (LitI ''S''), Star Space,
      Cap (StarLazy AnyChar), Ahead (alts [LitI ''###'', Eos])])"

definition mistakes_rx :: rx where
  \<comment> \<open>\<open>/###?\s*\d*\.?\s*COMMON MISTAKES?\s*([\s\S]*?)(?=###|$)/i\<close>\<close>
  "mistakes_rx = seqs (heading_prefix @
     [LitI ''COMMON MISTAKE'', Opt (LitI ''S''), Star Space,
      Cap (StarLazy AnyChar), Ahead (alts [LitI ''###'', Eos])])"

definition variations_rx :: rx where
  \<comment> \<open>\<open>/###?\s*\d*\.?\s*PROBLEM VARIATIONS?\s*([\s\S]*?)(?=###|$)/i\<close>\<close>
  "variations_rx = seqs (heading_prefix @
     [LitI ''PROBLEM VARIATION'', Opt (LitI ''S''), Star Space,
      Cap (StarLazy AnyChar), Ahead (alts [LitI ''###'', Eos])])"

definition alt_follow_up_rx :: rx where
  \<comment> \<open>\<open>/(?:interview|follow[-\s]?up|what if)[^\n]*:\s*([\s\S]*?)(?=###|common|variation|$)/i\<close>\<close>
  "alt_follow_up_rx = seqs
     [alts [LitI ''interview'',
            seqs [LitI ''follow'', Opt (Cls (Either (OneOf ''-'') Space)), LitI ''up''],
            LitI ''what if''],
      Star (NoneOf [CHR 0x0A]), LitI '':'', Star Space,
      Cap (StarLazy AnyChar),
      Ahead (alts [LitI ''###'', LitI ''common'', LitI ''variation'', Eos])]"

definition item_start :: cclass where
  \<comment> \<open>\<open>[-\<bullet>*\d]\<close>; the bullet U+2022 lies outside the alphabet of the model\<close>
  "item_start = Either (OneOf ''-*'') Digit"

definition item_marker :: cclass where
  \<comment> \<open>\<open>[-\<bullet>*\d.]\<close>\<close>
  "item_marker = Either (OneOf ''-*.'') Digit"

definition list_items :: "string \<Rightarrow> string list" where
  \<comment> \<open>\<open>block.split('\n').filter(l => l.trim().match(/^[-\<bullet>*\d]/))
        .map(l => l.replace(/^[-\<bullet>*\d.]+\s*/, '').trim()).filter(l => l.length > 0)\<close>\<close>
  "list_items block =
     (let lines = filter (\<lambda>l. match_at_start (Cls item_start) (trim l) \<noteq> None) (split_lines block)
      in filter (\<lambda>l. length l > 0)
           (map (\<lambda>l. trim (replace_at_start (seqs [Cls item_marker, Star item_marker, Star Space]) l))
              lines))"

text \<open>
  The fields of the parsed analysis. \<open>understanding\<close> can hold \<open>undefined\<close> (\<open>None\<close>):
  the fallback stores the raw reply there, and the reply of the completion provider can be
  \<open>undefined\<close>.
\<close>

record sections =
  understanding :: "string option"
  brute_force :: string
  optimized :: string
  time_complexity :: string
  space_complexity :: string
  edge_cases :: "string list"
  java_code :: string
  dry_run :: string
  follow_up_questions :: "string list"
  common_mistakes :: "string list"
  variations :: "string list"

definition default_sections :: sections where
  "default_sections =
     \<lparr> understanding = Some [], brute_force = [], optimized = [], time_complexity = [],
       space_complexity = [], edge_cases = [], java_code = [], dry_run = [],
       follow_up_questions = [], common_mistakes = [], variations = [] \<rparr>"

datatype js_error = JsTypeError | JsSyntaxError

definition on_match ::
  "rx \<Rightarrow> string option \<Rightarrow> (string \<Rightarrow> sections \<Rightarrow> sections) \<Rightarrow> sections \<Rightarrow> js_error + sections"
where
  \<comment> \<open>\<open>const m = llmResponse.match(r); if (m) sections.f = ... m[1] ...\<close>. Calling
      \<open>match\<close> on \<open>undefined\<close>, or a method on an \<open>undefined\<close> group, raises a TypeError.\<close>
  "on_match r llmResponse upd s =
     (case llmResponse of
        None \<Rightarrow> Inl JsTypeError
      | Some text \<Rightarrow>
          (case match_rx r text of
             None \<Rightarrow> Inr s
           | Some None \<Rightarrow> Inl JsTypeError
           | Some (Some g) \<Rightarrow> Inr (upd g s)))"

definition fallback_follow_up :: "string option \<Rightarrow> sections \<Rightarrow> js_error + sections" where
  "fallback_follow_up llmResponse s =
     (if length (follow_up_questions s) = 0
      then on_match alt_follow_up_rx llmResponse
             (\<lambda>g s. s\<lparr> follow_up_questions := take 5 (list_items g) \<rparr>) s
      else Inr s)"

definition parse_steps :: "string option \<Rightarrow> (sections \<Rightarrow> js_error + sections) list" where
  \<comment> \<open>the statements of the \<open>try\<close> block, in order\<close>
  "parse_steps llmResponse =
     [on_match understanding_rx llmResponse (\<lambda>g s. s\<lparr> understanding := Some (trim g) \<rparr>),
      on_match brute_rx llmResponse (\<lambda>g s. s\<lparr> brute_force := trim g \<rparr>),
      on_match optimized_rx llmResponse (\<lambda>g s. s\<lparr> optimized := trim g \<rparr>),
      on_match time_rx llmResponse (\<lambda>g s. s\<lparr> time_complexity := trim g \<rparr>),
      on_match space_rx llmResponse (\<lambda>g s. s\<lparr> space_complexity := trim g \<rparr>),
      on_match edge_rx llmResponse (\<lambda>g s. s\<lparr> edge_cases := list_items g \<rparr>),
      on_match code_rx llmResponse (\<lambda>g s. s\<lparr> java_code := trim g \<rparr>),
      on_match dry_run_rx llmResponse (\<lambda>g s. s\<lparr> dry_run := trim g \<rparr>),
      on_match follow_up_rx llmResponse (\<lambda>g s. s\<lparr> follow_up_questions := list_items g \<rparr>),
      on_match mistakes_rx llmResponse (\<lambda>g s. s\<lparr> common_mistakes := list_items g \<rparr>),
      on_match variations_rx llmResponse (\<lambda>g s. s\<lparr> variations := list_items g \<rparr>),
      fallback_follow_up llmResponse]"

fun run_steps :: "(sections \<Rightarrow> js_error + sections) list \<Rightarrow> sections \<Rightarrow> sections \<times> js_error option" where
  \<comment> \<open>Runs the statements on the mutable \<open>sections\<close> object; an error stops the block and
      leaves the object as the earlier statements made it.\<close>
  "run_steps [] s = (s, None)"
| "run_steps (f # fs) s = (case f s of Inl e \<Rightarrow> (s, Some e) | Inr s' \<Rightarrow> run_steps fs s')"

definition parse_body :: "string option \<Rightarrow> sections \<times> js_error option" where
  \<comment> \<open>the \<open>try\<close> block of \<open>parseStructuredResponse\<close>: the object it leaves and the error
      raised, if any\<close>
  "parse_body llmResponse = run_steps (parse_steps llmResponse) default_sections"

definition parseStructuredResponse :: "string option \<Rightarrow> sections" where
  "parseStructuredResponse llmResponse =
     (case parse_body llmResponse of
        (s, None) \<Rightarrow> s
      | (s, Some e) \<Rightarrow> s\<lparr> understanding := llmResponse \<rparr>)"

datatype json =
    JNull
  | JBool bool
  | JNum number
  | JStr string
  | JArr "json list"
  | JObj "(string \<times> json) list"

definition fence_rx :: rx where
  \<comment> \<open>\<open>/```json\s*([\s\S]*?)```/\<close>\<close>
  "fence_rx = seqs [Lit ''```json'', Star Space, Cap (StarLazy AnyChar), Lit ''```'']"

definition default_evaluation :: "string \<Rightarrow> json" where
  "default_evaluation llmResponse =
     JObj [(''score'', JNum (Fin 0)),
           (''breakdown'', JObj
              [(''correctness'', JObj [(''score'', JNum (Fin 0)), (''feedback'', JStr ''Unable to evaluate'')]),
               (''time_complexity'', JObj [(''score'', JNum (Fin 0)), (''feedback'', JStr ''Unable to evaluate''),
                                           (''detected'', JStr ''Unknown'')]),
               (''space_complexity'', JObj [(''score'', JNum (Fin 0)), (''feedback'', JStr ''Unable to evaluate''),
                                            (''detected'', JStr ''Unknown'')]),
               (''code_quality'', JObj [(''score'', JNum (Fin 0)), (''feedback'', JStr ''Unable to evaluate'')]),
               (''edge_cases'', JObj [(''score'', JNum (Fin 0)), (''feedback'', JStr ''Unable to evaluate''),
                                      (''missing'', JArr [])])]),
           (''suggestions'', JArr [JStr ''Unable to parse evaluation response'']),
           (''optimal_solution_hint'', JStr []),
           (''raw_response'', JStr llmResponse)]"

definition parseEvaluationResponse :: "(string \<Rightarrow> json option) \<Rightarrow> string \<Rightarrow> json" where
  \<comment> \<open>The first argument is \<open>JSON.parse\<close>, \<open>None\<close> where it raises a SyntaxError.\<close>
  "parseEvaluationResponse json_parse llmResponse =
     (case match_rx fence_rx llmResponse of
        Some None \<Rightarrow> default_evaluation llmResponse
      | Some (Some g) \<Rightarrow>
          (case json_parse g of None \<Rightarrow> default_evaluation llmResponse | Some v \<Rightarrow> v)
      | None \<Rightarrow>
          (case json_parse llmResponse of None \<Rightarrow> default_evaluation llmResponse | Some v \<Rightarrow> v))"

fun sets_group :: "rx \<Rightarrow> bool" where
  \<comment> \<open>a sufficient condition for every match of the regex to define group 1\<close>
  "sets_group (Cap r) = True"
| "sets_group (Seq a b) = (sets_group a \<or> sets_group b)"
| "sets_group (Alt a b) = (sets_group a \<and> sets_group b)"
| "sets_group r = False"

fun field :: "string \<Rightarrow> json \<Rightarrow> json option" where
  \<comment> \<open>\<open>v[name]\<close>, \<open>None\<close> for \<open>undefined\<close>\<close>
  "field name (JObj kvs) = map_of kvs name"
| "field name v = None"

section \<open>Interview mode service\<close>

datatype phase = Understanding | Approach | Optimization | Reveal

definition MAX_GUIDED_QUESTIONS :: int where
  "MAX_GUIDED_QUESTIONS = 3"

definition phases :: "phase list" where
  \<comment> \<open>\<open>Object.values(INTERVIEW_MODE.PHASES)\<close>\<close>
  "phases = [Understanding, Approach, Optimization, Reveal]"

fun indexOf :: "'a list \<Rightarrow> 'a \<Rightarrow> int" where
  \<comment> \<open>\<open>xs.indexOf(x)\<close>: the first position of \<open>x\<close>, or \<open>-1\<close>\<close>
  "indexOf [] x = -1"
| "indexOf (y # ys) x = (if y = x then 0 else (let i = indexOf ys x in if i < 0 then -1 else i + 1))"

datatype role = User | Assistant

record turn =
  role :: role
  content :: string
  timestamp :: int

text \<open>Dates are milliseconds since the epoch; subtracting two dates gives milliseconds.\<close>

record session =
  session_id :: string
  problem :: string
  phase :: phase
  interactions :: int
  maxInteractions :: int
  startedAt :: int
  lastActivity :: int
  history :: "turn list"

record service =
  sessions :: "string \<rightharpoonup> session"
  sessionTimeout :: int

definition new_service :: service where
  \<comment> \<open>the constructor; the timer it starts calls \<open>cleanupExpiredSessions\<close>\<close>
  "new_service = \<lparr> sessions = Map.empty, sessionTimeout = 30 * 60 * 1000 \<rparr>"

definition interview_mode_rx :: rx where
  \<comment> \<open>\<open>/interview\s*mode/gi\<close>\<close>
  "interview_mode_rx = Seq (LitI ''interview'') (Seq (Star Space) (LitI ''mode''))"

text \<open>
  Every operation takes the current time \<open>now\<close> (what \<open>new Date()\<close> returns);
  \<open>createSession\<close> also takes the identifier that \<open>uuidv4()\<close> returns. An operation
  returns its result and the service after it; \<open>None\<close> is \<open>null\<close> or \<open>undefined\<close>.
\<close>

definition createSession :: "string \<Rightarrow> int \<Rightarrow> string \<Rightarrow> service \<Rightarrow> session \<times> service" where
  "createSession sessionId now problem_text sv =
     (let cleanProblem = trim (remove_all interview_mode_rx 0 problem_text);
          s = \<lparr> session_id = sessionId,
                problem = cleanProblem,
                phase = Understanding,
                interactions = 0,
                maxInteractions = MAX_GUIDED_QUESTIONS,
                startedAt = now,
                lastActivity = now,
                history = [] \<rparr>
      in (s, sv\<lparr> sessions := (sessions sv)(sessionId \<mapsto> s) \<rparr>))"

definition getSession :: "int \<Rightarrow> string \<Rightarrow> service \<Rightarrow> session option \<times> service" where
  "getSession now sessionId sv =
     (case sessions sv sessionId of
        None \<Rightarrow> (None, sv)
      | Some s \<Rightarrow>
          (let s' = s\<lparr> lastActivity := now \<rparr>
           in (Some s', sv\<lparr> sessions := (sessions sv)(sessionId \<mapsto> s') \<rparr>)))"

definition updateSession :: "int \<Rightarrow> string \<Rightarrow> string \<Rightarrow> service \<Rightarrow> session option \<times> service" where
  "updateSession now sessionId userResponse sv =
     (case sessions sv sessionId of
        None \<Rightarrow> (None, sv)
      | Some s \<Rightarrow>
          (let s1 = s\<lparr> interactions := interactions s + 1, lastActivity := now \<rparr>;
               s2 = (if userResponse \<noteq> []
                     then s1\<lparr> history := history s1 @
                              [\<lparr> role = User, content = userResponse, timestamp = now \<rparr>] \<rparr>
                     else s1);
               currentIndex = indexOf phases (phase s2);
               s3 = (if interactions s2 \<ge> maxInteractions s2 then s2\<lparr> phase := Reveal \<rparr>
                     else if currentIndex < int (length phases) - 1
                     then s2\<lparr> phase := phases ! nat (currentIndex + 1) \<rparr>
                     else s2)
           in (Some s3, sv\<lparr> sessions := (sessions sv)(sessionId \<mapsto> s3) \<rparr>)))"

definition addResponse :: "int \<Rightarrow> string \<Rightarrow> string \<Rightarrow> service \<Rightarrow> session option \<times> service" where
  "addResponse now sessionId response sv =
     (case sessions sv sessionId of
        None \<Rightarrow> (None, sv)
      | Some s \<Rightarrow>
          (let s' = s\<lparr> history := history s @
                       [\<lparr> role = Assistant, content = response, timestamp = now \<rparr>] \<rparr>
           in (Some s', sv\<lparr> sessions := (sessions sv)(sessionId \<mapsto> s') \<rparr>)))"

definition revealSolution :: "int \<Rightarrow> string \<Rightarrow> service \<Rightarrow> session option \<times> service" where
  "revealSolution now sessionId sv =
     (case sessions sv sessionId of
        None \<Rightarrow> (None, sv)
      | Some s \<Rightarrow>
          (let s' = s\<lparr> phase := Reveal, lastActivity := now \<rparr>
           in (Some s', sv\<lparr> sessions := (sessions sv)(sessionId \<mapsto> s') \<rparr>)))"

definition endSession :: "string \<Rightarrow> service \<Rightarrow> session option \<times> service" where
  "endSession sessionId sv =
     (sessions sv sessionId, sv\<lparr> sessions := (sessions sv)(sessionId := None) \<rparr>)"

record session_status =
  st_id :: string
  st_phase :: phase
  st_interactions :: int
  st_maxInteractions :: int
  interactionsRemaining :: int
  st_startedAt :: int
  st_lastActivity :: int
  historyLength :: nat

definition getSessionStatus :: "string \<Rightarrow> service \<Rightarrow> session_status option" where
  "getSessionStatus sessionId sv =
     (case sessions sv sessionId of
        None \<Rightarrow> None
      | Some s \<Rightarrow>
          Some \<lparr> st_id = session_id s,
                 st_phase = phase s,
                 st_interactions = interactions s,
                 st_maxInteractions = maxInteractions s,
                 interactionsRemaining = max 0 (maxInteractions s - interactions s),
                 st_startedAt = startedAt s,
                 st_lastActivity = lastActivity s,
                 historyLength = length (history s) \<rparr>)"

definition cleanupExpiredSessions :: "int \<Rightarrow> service \<Rightarrow> service" where
  \<comment> \<open>the loop deletes every entry whose idle time exceeds the timeout\<close>
  "cleanupExpiredSessions now sv =
     sv\<lparr> sessions := (\<lambda>sessionId.
            case sessions sv sessionId of
              None \<Rightarrow> None
            | Some s \<Rightarrow>
                (let elapsed = now - lastActivity s
                 in if elapsed > sessionTimeout sv then None else Some s)) \<rparr>"

text \<open>The operations of the session manager that act on an existing session.\<close>

datatype session_op =
    Advance int string string       \<comment> \<open>\<open>updateSession\<close> at a time, on an identifier, with a user turn\<close>
  | ForceReveal int string          \<comment> \<open>\<open>revealSolution\<close>\<close>
  | RecordAssistantTurn int string string  \<comment> \<open>\<open>addResponse\<close>\<close>
  | GetSession int string           \<comment> \<open>\<open>getSession\<close>\<close>

fun apply_op :: "session_op \<Rightarrow> service \<Rightarrow> service" where
  "apply_op (Advance now i r) sv = snd (updateSession now i r sv)"
| "apply_op (ForceReveal now i) sv = snd (revealSolution now i sv)"
| "apply_op (RecordAssistantTurn now i r) sv = snd (addResponse now i r sv)"
| "apply_op (GetSession now i) sv = snd (getSession now i sv)"

fun apply_ops :: "session_op list \<Rightarrow> service \<Rightarrow> service" where
  "apply_ops [] sv = sv"
| "apply_ops (x # xs) sv = apply_ops xs (apply_op x sv)"

definition phase_index :: "phase \<Rightarrow> int" where
  \<comment> \<open>the position of a phase in the fixed order, as \<open>updateSession\<close> computes it\<close>
  "phase_index p = indexOf phases p"

fun next_phase :: "phase \<Rightarrow> phase" where
  \<comment> \<open>the successor in the fixed order; \<open>Reveal\<close> is terminal\<close>
  "next_phase Understanding = Approach"
| "next_phase Approach = Optimization"
| "next_phase Optimization = Reveal"
| "next_phase Reveal = Reveal"

section \<open>Vector store service\<close>

text \<open>A field that a corpus entry may lack is \<open>None\<close> (\<open>undefined\<close>).\<close>

record document =
  title :: "string option"
  difficulty :: "string option"
  tags :: "string list option"
  doc_problem :: "string option"
  approach :: "string option"
  complexity :: "string option"

record search_result =
  document :: document
  score :: number
  rank :: nat

datatype error = TypeError | ProviderError string

type_synonym vector = "number list"

text \<open>
  What the code reaches outside itself. \<open>chat\<close> is the completion provider; it returns the
  generated text, or \<open>undefined\<close>, or reports failure with a message.
\<close>

datatype call =
    EmbedCall string                      \<comment> \<open>\<open>embeddingService.embed(text)\<close>\<close>
  | IndexSearchCall vector int            \<comment> \<open>\<open>index.search(vector, k)\<close>\<close>
  | ChatCall string string "number option" "int option"
      \<comment> \<open>\<open>ollamaService.chat(system, user, {temperature, maxTokens})\<close>; an option that
          is \<open>undefined\<close> is \<open>None\<close>\<close>

record world =
  embed :: "string \<Rightarrow> error + vector"
  index_search :: "vector \<Rightarrow> int \<Rightarrow> error + (int list \<times> number list)"
  normalizeVector :: "vector \<Rightarrow> vector"
    \<comment> \<open>floating-point arithmetic, left abstract\<close>
  loadIndex :: "document list option"
    \<comment> \<open>the documents of the snapshot on disk, when \<open>loadIndex\<close> returns true\<close>
  create_index :: "error option"
    \<comment> \<open>the error \<open>new IndexFlatIP(dimension)\<close> raises, if it raises\<close>
  chat :: "string \<Rightarrow> string \<Rightarrow> number option \<Rightarrow> int option \<Rightarrow> string + string option"

record faiss_service =
  documents :: "document list"
  topK :: int
  similarityThreshold :: number
  isInitialized :: bool

definition or_default :: "int option \<Rightarrow> int \<Rightarrow> int" where
  \<comment> \<open>\<open>parseInt(x) || d\<close>, applied to what \<open>parseInt\<close> returns (\<open>None\<close> for \<open>NaN\<close>)\<close>
  "or_default x d = (case x of None \<Rightarrow> d | Some n \<Rightarrow> if n = 0 then d else n)"

definition similarityThreshold_of_env :: "number \<Rightarrow> number" where
  \<comment> \<open>\<open>parseFloat(process.env.RAG_SIMILARITY_THRESHOLD) || 0.7\<close>, applied to what
      \<open>parseFloat\<close> returns; \<open>NaN\<close> and zero are falsy\<close>
  "similarityThreshold_of_env t = (if t = NaN \<or> t = Fin 0 then Fin 0.7 else t)"

definition new_faiss_service :: "int option \<Rightarrow> number \<Rightarrow> faiss_service" where
  \<comment> \<open>The constructor, from what \<open>parseInt\<close> returns for \<open>RAG_TOP_K\<close> and \<open>parseFloat\<close>
      for \<open>RAG_SIMILARITY_THRESHOLD\<close>: the configured threshold.\<close>
  "new_faiss_service rag_top_k rag_similarity_threshold =
     \<lparr> documents = [],
       topK = or_default rag_top_k 5,
       similarityThreshold = similarityThreshold_of_env rag_similarity_threshold,
       isInitialized = False \<rparr>"

definition initialize :: "world \<Rightarrow> faiss_service \<Rightarrow> error + faiss_service" where
  \<comment> \<open>When no snapshot is loaded a new index is created; if that raises, the handler
      creates one again, and this second error leaves the function.\<close>
  "initialize w sv =
     (case loadIndex w of
        Some docs \<Rightarrow> Inr (sv\<lparr> documents := docs, isInitialized := True \<rparr>)
      | None \<Rightarrow>
          (case create_index w of
             None \<Rightarrow> Inr (sv\<lparr> documents := [], isInitialized := True \<rparr>)
           | Some e \<Rightarrow> Inl e))"

definition ensure_initialized :: "world \<Rightarrow> faiss_service \<Rightarrow> error + faiss_service" where
  \<comment> \<open>\<open>if (!this.isInitialized) await this.initialize()\<close>\<close>
  "ensure_initialized w sv = (if isInitialized sv then Inr sv else initialize w sv)"

function format_results ::
  "document list \<Rightarrow> int list \<Rightarrow> number list \<Rightarrow> nat \<Rightarrow> search_result list \<Rightarrow> error + search_result list"
where
  \<comment> \<open>The loop over \<open>result.labels\<close>. A label without a distance makes \<open>score.toFixed\<close>
      raise a TypeError.\<close>
  "format_results docs labels distances i results =
     (if i < length labels then
        (if i < length distances then
           (let idx = labels ! i; score = distances ! i
            in format_results docs labels distances (i + 1)
                 (if idx \<ge> 0 \<and> idx < int (length docs)
                  then results @ [\<lparr> document = docs ! nat idx, score = score, rank = i + 1 \<rparr>]
                  else results))
         else Inl TypeError)
      else Inr results)"
  by pat_completeness auto
termination
  by (relation "measure (\<lambda>(docs, labels, distances, i, results). length labels - i)") auto

definition search_body ::
  "world \<Rightarrow> string \<Rightarrow> int option \<Rightarrow> faiss_service \<Rightarrow> search_result list \<times> call list"
where
  \<comment> \<open>\<open>search\<close> from the test for an empty store on. Returns the result and the external
      calls made, in order. The requested \<open>k\<close> is \<open>None\<close> for \<open>null\<close>.\<close>
  "search_body w query k sv =
     (if length (documents sv) = 0 then ([], [])
      else
        let k1 = (case k of None \<Rightarrow> topK sv | Some n \<Rightarrow> if n = 0 then topK sv else n);
            k2 = min k1 (int (length (documents sv)))
        in case embed w query of
             Inl e \<Rightarrow> ([], [EmbedCall query])
           | Inr queryEmbedding \<Rightarrow>
               (let normalizedQuery = normalizeVector w queryEmbedding;
                    calls = [EmbedCall query, IndexSearchCall normalizedQuery k2]
                in case index_search w normalizedQuery k2 of
                     Inl e \<Rightarrow> ([], calls)
                   | Inr (labels, distances) \<Rightarrow>
                       (case format_results (documents sv) labels distances 0 [] of
                          Inl e \<Rightarrow> ([], calls)
                        | Inr results \<Rightarrow>
                            (let threshold = similarityThreshold sv;
                                 filtered = filter (\<lambda>r. num_ge (score r) threshold) results
                             in (filtered, calls)))))"

definition search ::
  "world \<Rightarrow> string \<Rightarrow> int option \<Rightarrow> faiss_service
     \<Rightarrow> error + (search_result list \<times> call list \<times> faiss_service)"
where
  \<comment> \<open>The result, the external calls and the service afterwards; \<open>Inl\<close> when the
      initialization, which is outside the \<open>try\<close>, raises.\<close>
  "search w query k sv0 =
     (case ensure_initialized w sv0 of
        Inl e \<Rightarrow> Inl e
      | Inr sv \<Rightarrow> (let (results, calls) = search_body w query k sv in Inr (results, calls, sv)))"

section \<open>Retrieval pipeline\<close>

record rag_pipeline =
  pipeline_topK :: int
  chunkSize :: int

record retrieve_options =
  opt_topK :: "int option"
  opt_contextFormat :: "string option"

record source =
  src_title :: "string option"
  src_score :: number
  src_difficulty :: "string option"
  src_tags :: "string list option"

record retrieved =
  context_text :: string
  sources :: "source list"

definition interpolate :: "string option \<Rightarrow> string" where
  \<comment> \<open>\<open>${x}\<close> in a template literal\<close>
  "interpolate x = (case x of None \<Rightarrow> ''undefined'' | Some s \<Rightarrow> s)"

definition or_else :: "string \<Rightarrow> string \<Rightarrow> string" where
  \<comment> \<open>\<open>a || b\<close> on strings: the empty string is falsy\<close>
  "or_else a b = (if a = [] then b else a)"

definition tags_text :: "document \<Rightarrow> string" where
  \<comment> \<open>\<open>doc.tags?.join(', ') || 'N/A'\<close>\<close>
  "tags_text doc = (case tags doc of None \<Rightarrow> ''N/A'' | Some ts \<Rightarrow> or_else (join '', '' ts) ''N/A'')"

definition minimal_line :: "document \<Rightarrow> string" where
  "minimal_line doc =
     interpolate (title doc) @ '' ('' @ interpolate (difficulty doc) @ ''): '' @
     (case approach doc of None \<Rightarrow> ''N/A'' | Some a \<Rightarrow> or_else (substring0 200 a) ''N/A'')"

definition hints_line :: "document \<Rightarrow> string" where
  "hints_line doc = ''Similar: '' @ interpolate (title doc) @ '' - Tags: '' @ tags_text doc"

definition full_block :: "int \<Rightarrow> document \<Rightarrow> string" where
  "full_block chunk doc =
     (let problemText = (case doc_problem doc of None \<Rightarrow> [] | Some p \<Rightarrow> or_else (substring0 (nat chunk) p) []);
          approachText = (case approach doc of None \<Rightarrow> ''N/A''
                          | Some a \<Rightarrow> or_else (substring0 (nat chunk) a) ''N/A'')
      in [CHR 0x0A] @ ''### '' @ interpolate (title doc) @ '' ('' @ interpolate (difficulty doc) @ '')'' @
         [CHR 0x0A] @ ''**Tags:** '' @ tags_text doc @
         [CHR 0x0A] @ ''**Problem:** '' @ problemText @
         [CHR 0x0A] @ ''**Approach:** '' @ approachText)"

definition render_context :: "string \<Rightarrow> int \<Rightarrow> search_result list \<Rightarrow> string" where
  \<comment> \<open>\<open>contextParts.join('\n---\n')\<close> for the three formats\<close>
  "render_context contextFormat chunk results =
     (let contextParts =
            (if contextFormat = ''minimal'' then map (\<lambda>r. minimal_line (document r)) results
             else if contextFormat = ''hints'' then map (\<lambda>r. hints_line (document r)) results
             else map (\<lambda>r. full_block chunk (document r)) results)
      in join ([CHR 0x0A] @ ''---'' @ [CHR 0x0A]) contextParts)"

definition retrieveContext ::
  "world \<Rightarrow> rag_pipeline \<Rightarrow> string \<Rightarrow> retrieve_options \<Rightarrow> faiss_service \<Rightarrow> retrieved \<times> call list"
where
  \<comment> \<open>The result and the external calls made. An error that leaves \<open>search\<close> is caught.\<close>
  "retrieveContext w pl query options sv =
     (let topK = (case opt_topK options of None \<Rightarrow> pipeline_topK pl
                  | Some k \<Rightarrow> if k = 0 then pipeline_topK pl else k);
          contextFormat = (case opt_contextFormat options of None \<Rightarrow> ''full''
                           | Some f \<Rightarrow> if f = [] then ''full'' else f)
      in case search w query (Some topK) sv of
           Inl e \<Rightarrow> (\<lparr> context_text = [], sources = [] \<rparr>, [])
         | Inr (results, calls, sv') \<Rightarrow>
             if length results = 0 then (\<lparr> context_text = [], sources = [] \<rparr>, calls)
             else (\<lparr> context_text = render_context contextFormat (chunkSize pl) results,
                     sources = map (\<lambda>r. \<lparr> src_title = title (document r), src_score = score r,
                                            src_difficulty = difficulty (document r),
                                            src_tags = tags (document r) \<rparr>) results \<rparr>,
                   calls))"


record mode_config =
  maxTokens :: "int option"
  temperature :: "number option"
  cfg_topK :: "int option"
  contextFormat :: "string option"












section \<open>Agreement up to the fields the hints format hides\<close>

definition same_listing :: "document \<Rightarrow> document \<Rightarrow> bool" where
  \<comment> \<open>two documents with the same title and the same tag list; every other field is free\<close>
  "same_listing d d' = (title d = title d' \<and> tags d = tags d')"

definition same_result :: "search_result \<Rightarrow> search_result \<Rightarrow> bool" where
  "same_result r r' = (same_listing (document r) (document r') \<and> score r = score r' \<and> rank r = rank r')"

section \<open>Example data\<close>

definition two_sum :: document where
  "two_sum = \<lparr> title = Some ''Two Sum'', difficulty = Some ''Easy'',
               tags = Some [''array'', ''hashmap''],
               doc_problem = Some ''Find two numbers that add up to a target.'',
               approach = Some ''Store each value in a hash map and look up the complement.'',
               complexity = Some ''O(n)'' \<rparr>"

definition reverse_list :: document where
  "reverse_list = \<lparr> title = Some ''Reverse Linked List'', difficulty = Some ''Easy'',
               tags = Some [''linkedlist''],
               doc_problem = Some ''Reverse a singly linked list.'',
               approach = Some ''Walk the list and turn every next pointer around.'',
               complexity = Some ''O(n)'' \<rparr>"

definition example_world :: world where
  \<comment> \<open>an index of two vectors that answers every query with labels 0, 1 and 7\<close>
  "example_world =
     \<lparr> embed = (\<lambda>text. Inr [Fin 1, Fin 0]),
       index_search = (\<lambda>v k. Inr ([0, 1, 7], [Fin 0.9, Fin 0.5, Fin 0.95])),
       normalizeVector = (\<lambda>v. v),
       loadIndex = None,
       create_index = None,
       chat = (\<lambda>systemPrompt userPrompt temperature maxTokens. Inr (Some ''What is the input?'')) \<rparr>"

definition failing_world :: world where
  \<comment> \<open>the embedding provider is down\<close>
  "failing_world = example_world\<lparr> embed := (\<lambda>text. Inl (ProviderError ''connection refused'')) \<rparr>"

definition broken_world :: world where
  \<comment> \<open>no snapshot on disk, and the native index cannot be created\<close>
  "broken_world = example_world\<lparr> create_index := Some (ProviderError ''invalid dimension'') \<rparr>"

definition loaded_world :: world where
  \<comment> \<open>the snapshot on disk holds the two documents\<close>
  "loaded_world = example_world\<lparr> loadIndex := Some [two_sum, reverse_list] \<rparr>"

definition example_store :: faiss_service where
  "example_store = \<lparr> documents = [two_sum, reverse_list], topK = 5,
                     similarityThreshold = Fin 0.7, isInitialized = True \<rparr>"

definition dq :: string where
  \<comment> \<open>the double quote\<close>
  "dq = [CHR 0x22]"

definition example_json_text :: string where
  \<comment> \<open>an evaluation in the rubric schema, as JSON text, and a line break\<close>
  "example_json_text =
     ''{'' @ dq @ ''score'' @ dq @ '':7,'' @ dq @ ''breakdown'' @ dq @ '':{'' @ dq @
     ''correctness'' @ dq @ '':{'' @ dq @ ''score'' @ dq @ '':3,'' @ dq @ ''feedback'' @
     dq @ '':'' @ dq @ ''ok'' @ dq @ ''},'' @ dq @ ''time_complexity'' @ dq @ '':{'' @ dq @
     ''score'' @ dq @ '':2,'' @ dq @ ''feedback'' @ dq @ '':'' @ dq @ ''ok'' @ dq @ '','' @
     dq @ ''detected'' @ dq @ '':'' @ dq @ ''O(n)'' @ dq @ ''},'' @ dq @
     ''space_complexity'' @ dq @ '':{'' @ dq @ ''score'' @ dq @ '':1,'' @ dq @
     ''feedback'' @ dq @ '':'' @ dq @ ''ok'' @ dq @ '','' @ dq @ ''detected'' @ dq @
     '':'' @ dq @ ''O(n)'' @ dq @ ''},'' @ dq @ ''code_quality'' @ dq @ '':{'' @ dq @
     ''score'' @ dq @ '':1,'' @ dq @ ''feedback'' @ dq @ '':'' @ dq @ ''ok'' @ dq @
     ''},'' @ dq @ ''edge_cases'' @ dq @ '':{'' @ dq @ ''score'' @ dq @ '':0,'' @ dq @
     ''feedback'' @ dq @ '':'' @ dq @ ''none'' @ dq @ '','' @ dq @ ''missing'' @ dq @
     '':[]}},'' @ dq @ ''suggestions'' @ dq @ '':['' @ dq @ ''test more'' @ dq @ ''],'' @
     dq @ ''optimal_solution_hint'' @ dq @ '':'' @ dq @ ''hash map'' @ dq @ ''}'' @ [CHR 0x0A]"

definition example_evaluation :: json where
  \<comment> \<open>the value \<open>JSON.parse\<close> gives for \<open>example_json_text\<close>\<close>
  "example_evaluation =
     JObj [(''score'', JNum (Fin 7)),
           (''breakdown'', JObj [(''correctness'', JObj [(''score'', JNum (Fin 3)),
                       (''feedback'', JStr ''ok'')]),
                 (''time_complexity'', JObj [(''score'', JNum (Fin 2)),
                       (''feedback'', JStr ''ok''),
                       (''detected'', JStr ''O(n)'')]),
                 (''space_complexity'', JObj [(''score'', JNum (Fin 1)),
                       (''feedback'', JStr ''ok''),
                       (''detected'', JStr ''O(n)'')]),
                 (''code_quality'', JObj [(''score'', JNum (Fin 1)),
                       (''feedback'', JStr ''ok'')]),
                 (''edge_cases'', JObj [(''score'', JNum (Fin 0)),
                       (''feedback'', JStr ''none''),
                       (''missing'', JArr [])])]),
           (''suggestions'', JArr [JStr ''test more'']),
           (''optimal_solution_hint'', JStr ''hash map'')]"

definition example_json_parse :: "string \<Rightarrow> json option" where
  \<comment> \<open>\<open>JSON.parse\<close> on the texts of the examples: it accepts \<open>example_json_text\<close> and
      rejects the other texts handed to it there, none of which is JSON\<close>
  "example_json_parse s = (if s = example_json_text then Some example_evaluation else None)"



definition example_pipeline :: rag_pipeline where
  "example_pipeline = \<lparr> pipeline_topK = 2, chunkSize = 500 \<rparr>"

section \<open>Properties of the interview mode service\<close>

lemma clean_example:
  "trim (remove_all interview_mode_rx 0 ''interview mode: reverse a list'') = '': reverse a list''"
  by (simp add: interview_mode_rx_def trim_def is_space_def canonicalize_def)

lemma createSession_result:
  "createSession i t p sv = (s, sv') \<Longrightarrow>
     sessions sv' i = Some s \<and> phase s = Understanding \<and> interactions s = 0 \<and>
     maxInteractions s = 3 \<and> problem s = trim (remove_all interview_mode_rx 0 p)"
  by (auto simp: createSession_def Let_def MAX_GUIDED_QUESTIONS_def)

lemma updateSession_result:
  assumes "sessions sv i = Some s"
  shows "\<exists>s' sv'. updateSession now i r sv = (Some s', sv') \<and> sessions sv' i = Some s' \<and>
     interactions s' = interactions s + 1 \<and> maxInteractions s' = maxInteractions s \<and>
     phase s' = (if maxInteractions s \<le> interactions s + 1 then Reveal else next_phase (phase s))"
  using assms
  by (cases "phase s") (simp_all add: updateSession_def Let_def phases_def)

text \<open>
  C1. A session created from \<open>interview mode: reverse a list\<close> stores the problem text
  without the trigger phrase and starts in phase \<open>Understanding\<close> with counter 0. Three
  successive calls of \<open>updateSession\<close> move the phase to \<open>Approach\<close>, \<open>Optimization\<close>
  and \<open>Reveal\<close>, the counter is then 3, and a fourth call leaves the phase at \<open>Reveal\<close>.
  This holds for every identifier, every clock reading, every user turn and every service
  the session is created in.
\<close>

theorem interview_session_scenario:
  "(let (s0, v0) = createSession i t0 ''interview mode: reverse a list'' sv;
        (s1, v1) = updateSession t1 i r1 v0;
        (s2, v2) = updateSession t2 i r2 v1;
        (s3, v3) = updateSession t3 i r3 v2;
        (s4, v4) = updateSession t4 i r4 v3
    in problem s0 = '': reverse a list'' \<and> phase s0 = Understanding \<and> interactions s0 = 0 \<and>
       map_option phase s1 = Some Approach \<and>
       map_option phase s2 = Some Optimization \<and>
       map_option phase s3 = Some Reveal \<and>
       map_option interactions s3 = Some 3 \<and>
       map_option phase s4 = Some Reveal)"
proof -
  obtain s0 v0 where c: "createSession i t0 ''interview mode: reverse a list'' sv = (s0, v0)"
    by (cases "createSession i t0 ''interview mode: reverse a list'' sv")
  note f0 = createSession_result [OF c]
  obtain s1 v1 where u1: "updateSession t1 i r1 v0 = (Some s1, v1)" and m1: "sessions v1 i = Some s1"
    and f1: "interactions s1 = 1" "maxInteractions s1 = 3" "phase s1 = Approach"
    using updateSession_result [of v0 i s0 t1 r1] f0 by auto
  obtain s2 v2 where u2: "updateSession t2 i r2 v1 = (Some s2, v2)" and m2: "sessions v2 i = Some s2"
    and f2: "interactions s2 = 2" "maxInteractions s2 = 3" "phase s2 = Optimization"
    using updateSession_result [OF m1, of t2 r2] f1 by auto
  obtain s3 v3 where u3: "updateSession t3 i r3 v2 = (Some s3, v3)" and m3: "sessions v3 i = Some s3"
    and f3: "interactions s3 = 3" "maxInteractions s3 = 3" "phase s3 = Reveal"
    using updateSession_result [OF m2, of t3 r3] f2 by auto
  obtain s4 v4 where u4: "updateSession t4 i r4 v3 = (Some s4, v4)"
    and f4: "phase s4 = Reveal"
    using updateSession_result [OF m3, of t4 r4] f3 by auto
  show ?thesis
    using f0 f1 f2 f3 f4 by (simp only: c u1 u2 u3 u4 Let_def prod.case clean_example) simp
qed

lemma phase_index_simps:
  "phase_index Understanding = 0" "phase_index Approach = 1"
  "phase_index Optimization = 2" "phase_index Reveal = 3"
  by (simp_all add: phase_index_def phases_def)

lemma phase_index_next: "phase_index (next_phase p) = (if p = Reveal then 3 else phase_index p + 1)"
  by (cases p) (simp_all add: phase_index_simps)

lemma phase_index_le_3: "phase_index p \<le> 3"
  by (cases p) (simp_all add: phase_index_simps)

lemma phase_index_Reveal: "phase_index p = 3 \<longleftrightarrow> p = Reveal"
  by (cases p) (simp_all add: phase_index_simps)

lemma apply_op_step:
  assumes "sessions sv i = Some s"
  shows "\<exists>s'. sessions (apply_op x sv) i = Some s' \<and> interactions s \<le> interactions s' \<and>
     (phase s' = phase s \<or> phase s' = next_phase (phase s) \<or>
      (phase s' = Reveal \<and> ((\<exists>t. x = ForceReveal t i) \<or> maxInteractions s' \<le> interactions s')))"
  using assms
  by (cases x; cases "phase s")
     (auto simp: updateSession_def revealSolution_def addResponse_def getSession_def Let_def
        phases_def split: option.splits)

lemma apply_op_monotone:
  assumes "sessions sv i = Some s"
  shows "\<exists>s'. sessions (apply_op x sv) i = Some s' \<and> interactions s \<le> interactions s' \<and>
     phase_index (phase s) \<le> phase_index (phase s')"
proof -
  from apply_op_step [OF assms, of x] obtain s' where
    s': "sessions (apply_op x sv) i = Some s'" "interactions s \<le> interactions s'"
    and ph: "phase s' = phase s \<or> phase s' = next_phase (phase s) \<or> phase s' = Reveal"
    by blast
  from ph have "phase_index (phase s) \<le> phase_index (phase s')"
    using phase_index_le_3 [of "phase s"]
    by (auto simp: phase_index_next phase_index_simps)
  with s' show ?thesis by blast
qed

lemma apply_ops_monotone:
  assumes "sessions sv i = Some s"
  shows "\<exists>s'. sessions (apply_ops xs sv) i = Some s' \<and> interactions s \<le> interactions s' \<and>
     phase_index (phase s) \<le> phase_index (phase s')"
  using assms
proof (induction xs arbitrary: sv s)
  case Nil
  then show ?case by simp
next
  case (Cons x xs)
  from apply_op_monotone [OF Cons.prems, of x] obtain s1 where
    s1: "sessions (apply_op x sv) i = Some s1" "interactions s \<le> interactions s1"
        "phase_index (phase s) \<le> phase_index (phase s1)"
    by blast
  from Cons.IH [OF s1(1)] obtain s' where
    "sessions (apply_ops xs (apply_op x sv)) i = Some s'" "interactions s1 \<le> interactions s'"
    "phase_index (phase s1) \<le> phase_index (phase s')"
    by blast
  with s1 show ?case by (auto intro: order_trans)
qed

lemma advance_at_cap:
  assumes "sessions sv i = Some s" and "maxInteractions s \<le> interactions s + 1"
  shows "\<exists>s'. sessions (apply_op (Advance t i r) sv) i = Some s' \<and> phase s' = Reveal \<and>
              interactions s' = interactions s + 1"
  using updateSession_result [OF assms(1), of t r] assms(2) by auto

lemma force_reveal:
  assumes "sessions sv i = Some s"
  shows "\<exists>s'. sessions (apply_op (ForceReveal t i) sv) i = Some s' \<and> phase s' = Reveal \<and>
              interactions s' = interactions s"
  using assms by (simp add: revealSolution_def Let_def)

text \<open>
  C2. Along every sequence of \<open>updateSession\<close>, \<open>revealSolution\<close>, \<open>addResponse\<close> and
  \<open>getSession\<close> calls (on any identifiers, at any times) a session stays in the service,
  its interaction counter never decreases and its phase never moves backward in the order
  \<open>Understanding\<close>, \<open>Approach\<close>, \<open>Optimization\<close>, \<open>Reveal\<close>; a session in \<open>Reveal\<close> stays
  there. A single call leaves the phase where it is, moves it to the next phase of the
  order, or sets it to \<open>Reveal\<close>, and the latter only on an explicit reveal of this session
  or when the counter has reached the cap. An \<open>updateSession\<close> that brings the counter to
  the cap sets the phase to \<open>Reveal\<close> from any phase, and so does \<open>revealSolution\<close>, which
  leaves the counter as it is.
\<close>

theorem session_counter_and_phase_monotone:
  assumes "sessions sv i = Some s"
  shows "(\<exists>s'. sessions (apply_ops xs sv) i = Some s' \<and>
            interactions s \<le> interactions s' \<and>
            phase_index (phase s) \<le> phase_index (phase s') \<and>
            (phase s = Reveal \<longrightarrow> phase s' = Reveal)) \<and>
         (\<exists>s'. sessions (apply_op x sv) i = Some s' \<and>
            interactions s \<le> interactions s' \<and>
            (phase s' = phase s \<or> phase s' = next_phase (phase s) \<or>
             (phase s' = Reveal \<and>
              ((\<exists>t. x = ForceReveal t i) \<or> maxInteractions s' \<le> interactions s')))) \<and>
         (maxInteractions s \<le> interactions s + 1 \<longrightarrow>
            (\<exists>s'. sessions (apply_op (Advance t i r) sv) i = Some s' \<and> phase s' = Reveal \<and>
                   interactions s' = interactions s + 1)) \<and>
         (\<exists>s'. sessions (apply_op (ForceReveal t i) sv) i = Some s' \<and> phase s' = Reveal \<and>
                interactions s' = interactions s)"
proof (intro conjI impI)
  from apply_ops_monotone [OF assms, of xs] obtain s' where
    s': "sessions (apply_ops xs sv) i = Some s'" "interactions s \<le> interactions s'"
        "phase_index (phase s) \<le> phase_index (phase s')"
    by blast
  have "phase s' = Reveal" if "phase s = Reveal"
    using that s'(3) phase_index_le_3 [of "phase s'"] phase_index_Reveal [of "phase s'"]
    by (simp add: phase_index_simps)
  with s' show "\<exists>s'. sessions (apply_ops xs sv) i = Some s' \<and>
            interactions s \<le> interactions s' \<and>
            phase_index (phase s) \<le> phase_index (phase s') \<and>
            (phase s = Reveal \<longrightarrow> phase s' = Reveal)"
    by blast
next
  show "\<exists>s'. sessions (apply_op x sv) i = Some s' \<and>
            interactions s \<le> interactions s' \<and>
            (phase s' = phase s \<or> phase s' = next_phase (phase s) \<or>
             (phase s' = Reveal \<and>
              ((\<exists>t. x = ForceReveal t i) \<or> maxInteractions s' \<le> interactions s')))"
    by (rule apply_op_step [OF assms])
next
  assume "maxInteractions s \<le> interactions s + 1"
  with assms show "\<exists>s'. sessions (apply_op (Advance t i r) sv) i = Some s' \<and> phase s' = Reveal \<and>
                   interactions s' = interactions s + 1"
    by (rule advance_at_cap)
next
  from assms show "\<exists>s'. sessions (apply_op (ForceReveal t i) sv) i = Some s' \<and> phase s' = Reveal \<and>
                interactions s' = interactions s"
    by (rule force_reveal)
qed

text \<open>
  C9. A session whose last activity lies more than the timeout before the time of the
  sweep is gone after \<open>cleanupExpiredSessions\<close>; \<open>updateSession\<close> and \<open>getSessionStatus\<close>
  on its identifier then return \<open>null\<close> and leave the service as it is. The timeout the
  constructor sets is 30 minutes.
\<close>

theorem expired_session_not_found:
  assumes "sessions sv i = Some s"
    and "now - lastActivity s > sessionTimeout sv"
  shows "sessions (cleanupExpiredSessions now sv) i = None \<and>
         updateSession t i r (cleanupExpiredSessions now sv) = (None, cleanupExpiredSessions now sv) \<and>
         getSessionStatus i (cleanupExpiredSessions now sv) = None \<and>
         sessionTimeout new_service = 30 * 60 * 1000"
  using assms
  by (simp add: cleanupExpiredSessions_def updateSession_def getSessionStatus_def new_service_def)


theorem expired_session_not_found_witness:
  "sessions (new_service\<lparr>sessions := [''s1'' \<mapsto>
       \<lparr>session_id = ''s1'', problem = ''two sum'', phase = Approach, interactions = 1,
        maxInteractions = 3, startedAt = 0, lastActivity = 1000, history = []\<rparr>]\<rparr>) ''s1''
     = Some \<lparr>session_id = ''s1'', problem = ''two sum'', phase = Approach, interactions = 1,
        maxInteractions = 3, startedAt = 0, lastActivity = 1000, history = []\<rparr> \<and>
   1801001 - lastActivity \<lparr>session_id = ''s1'', problem = ''two sum'', phase = Approach,
        interactions = 1, maxInteractions = 3, startedAt = 0, lastActivity = 1000,
        history = []\<rparr>
     > sessionTimeout (new_service\<lparr>sessions := [''s1'' \<mapsto>
       \<lparr>session_id = ''s1'', problem = ''two sum'', phase = Approach, interactions = 1,
        maxInteractions = 3, startedAt = 0, lastActivity = 1000, history = []\<rparr>]\<rparr>) \<and>
   getSessionStatus ''s1'' (cleanupExpiredSessions 1801001 (new_service\<lparr>sessions := [''s1'' \<mapsto>
       \<lparr>session_id = ''s1'', problem = ''two sum'', phase = Approach, interactions = 1,
        maxInteractions = 3, startedAt = 0, lastActivity = 1000, history = []\<rparr>]\<rparr>)) = None \<and>
   fst (updateSession 1801002 ''s1'' ''a hash map'' (cleanupExpiredSessions 1801001
       (new_service\<lparr>sessions := [''s1'' \<mapsto>
       \<lparr>session_id = ''s1'', problem = ''two sum'', phase = Approach, interactions = 1,
        maxInteractions = 3, startedAt = 0, lastActivity = 1000, history = []\<rparr>]\<rparr>))) = None"
proof -
  let ?s = "\<lparr>session_id = ''s1'', problem = ''two sum'', phase = Approach, interactions = 1,
        maxInteractions = 3, startedAt = 0, lastActivity = 1000, history = []\<rparr>"
  let ?sv = "new_service\<lparr>sessions := [''s1'' \<mapsto> ?s]\<rparr>"
  have h1: "sessions ?sv ''s1'' = Some ?s" by simp
  have h2: "1801001 - lastActivity ?s > sessionTimeout ?sv" by (simp add: new_service_def)
  from expired_session_not_found [OF h1 h2, of 1801002 "''a hash map''"] h1 h2
  show ?thesis by simp
qed

theorem session_counter_and_phase_monotone_witness:
  "sessions (new_service\<lparr>sessions := [''s1'' \<mapsto>
       \<lparr>session_id = ''s1'', problem = ''two sum'', phase = Understanding, interactions = 0,
        maxInteractions = 3, startedAt = 0, lastActivity = 0, history = []\<rparr>]\<rparr>) ''s1''
     = Some \<lparr>session_id = ''s1'', problem = ''two sum'', phase = Understanding, interactions = 0,
        maxInteractions = 3, startedAt = 0, lastActivity = 0, history = []\<rparr> \<and>
   (\<exists>s'. sessions (apply_ops [Advance 1 ''s1'' ''sorted input?'', RecordAssistantTurn 2 ''s1'' ''yes'',
              GetSession 3 ''s1'', ForceReveal 4 ''s1'', Advance 5 ''s1'' [], Advance 6 ''s2'' []]
            (new_service\<lparr>sessions := [''s1'' \<mapsto>
       \<lparr>session_id = ''s1'', problem = ''two sum'', phase = Understanding, interactions = 0,
        maxInteractions = 3, startedAt = 0, lastActivity = 0, history = []\<rparr>]\<rparr>)) ''s1'' = Some s' \<and>
      0 \<le> interactions s' \<and> 0 \<le> phase_index (phase s'))"
proof -
  let ?s = "\<lparr>session_id = ''s1'', problem = ''two sum'', phase = Understanding, interactions = 0,
        maxInteractions = 3, startedAt = 0, lastActivity = 0, history = []\<rparr>"
  let ?sv = "new_service\<lparr>sessions := [''s1'' \<mapsto> ?s]\<rparr>"
  let ?ops = "[Advance 1 ''s1'' ''sorted input?'', RecordAssistantTurn 2 ''s1'' ''yes'',
              GetSession 3 ''s1'', ForceReveal 4 ''s1'', Advance 5 ''s1'' [], Advance 6 ''s2'' []]"
  have h: "sessions ?sv ''s1'' = Some ?s" by simp
  from session_counter_and_phase_monotone [OF h, of ?ops "ForceReveal 4 ''s1''" 5 "[]"]
  obtain s' where "sessions (apply_ops ?ops ?sv) ''s1'' = Some s'"
    "interactions ?s \<le> interactions s'" "phase_index (phase ?s) \<le> phase_index (phase s')"
    by blast
  then have "sessions (apply_ops ?ops ?sv) ''s1'' = Some s' \<and>
      0 \<le> interactions s' \<and> 0 \<le> phase_index (phase s')"
    by (simp add: phase_index_simps)
  then have "\<exists>s'. sessions (apply_ops ?ops ?sv) ''s1'' = Some s' \<and>
      0 \<le> interactions s' \<and> 0 \<le> phase_index (phase s')" ..
  with h show ?thesis by (rule conjI)
qed

section \<open>Properties of the response parsers\<close>

lemma run_keeps_group:
  "g \<noteq> None \<Longrightarrow> (s', g') \<in> set (run r (s, g)) \<Longrightarrow> g' \<noteq> None"
proof (induction r arbitrary: s g s' g')
  case (Seq a b)
  from Seq.prems(2) obtain s1 g1 where
    "(s1, g1) \<in> set (run a (s, g))" "(s', g') \<in> set (run b (s1, g1))"
    by auto
  with Seq.IH Seq.prems(1) show ?case by blast
next
  case (Ahead r)
  from Ahead.prems(2) have "\<exists>s1 rest. run r (s, g) = (s1, g') # rest"
    by (cases "run r (s, g)") auto
  then obtain s1 rest where "run r (s, g) = (s1, g') # rest"
    by blast
  then have "(s1, g') \<in> set (run r (s, g))" by simp
  with Ahead.IH Ahead.prems(1) show ?case by blast
next
  case (Opt r)
  from Opt.prems(2) consider "(s', g') \<in> set (run r (s, g))" | "g' = g"
    by auto
  then show ?case
  proof cases
    case 1
    with Opt.IH Opt.prems(1) show ?thesis by blast
  next
    case 2
    with Opt.prems(1) show ?thesis by simp
  qed
next
  case (Alt a b)
  from Alt.prems(2) consider "(s', g') \<in> set (run a (s, g))" | "(s', g') \<in> set (run b (s, g))"
    by auto
  then show ?case
  proof cases
    case 1
    with Alt.IH(1) Alt.prems(1) show ?thesis by blast
  next
    case 2
    with Alt.IH(2) Alt.prems(1) show ?thesis by blast
  qed
next
  case (Cls k)
  then show ?case by (auto split: list.splits if_splits)
qed (auto split: if_splits)

lemma run_sets_group:
  "sets_group r \<Longrightarrow> (s', g') \<in> set (run r (s, g)) \<Longrightarrow> g' \<noteq> None"
proof (induction r arbitrary: s g s' g')
  case (Seq a b)
  from Seq.prems(2) obtain s1 g1 where
    m: "(s1, g1) \<in> set (run a (s, g))" "(s', g') \<in> set (run b (s1, g1))"
    by auto
  show ?case
  proof (cases "sets_group b")
    case True
    with Seq.IH(2) m(2) show ?thesis by blast
  next
    case False
    with Seq.prems(1) have "sets_group a" by simp
    with Seq.IH(1) m(1) have "g1 \<noteq> None" by blast
    with run_keeps_group m(2) show ?thesis by blast
  qed
next
  case (Alt a b)
  from Alt.prems(2) consider "(s', g') \<in> set (run a (s, g))" | "(s', g') \<in> set (run b (s, g))"
    by auto
  then show ?case
  proof cases
    case 1
    with Alt.IH(1) Alt.prems(1) show ?thesis by auto
  next
    case 2
    with Alt.IH(2) Alt.prems(1) show ?thesis by auto
  qed
qed auto

lemma exec_in_run: "exec r s = Some m \<Longrightarrow> \<exists>t. m \<in> set (run r (t, None))"
proof (induction s)
  case Nil
  then have "m \<in> set (run r ([], None))" by (auto split: list.splits)
  then show ?case ..
next
  case (Cons c cs)
  show ?case
  proof (cases "run r (c # cs, None)")
    case Nil
    with Cons show ?thesis by simp
  next
    case (Cons m' ms)
    with Cons.prems have "m \<in> set (run r (c # cs, None))" by simp
    then show ?thesis ..
  qed
qed

lemma match_rx_defines_group:
  assumes "sets_group r"
  shows "match_rx r s \<noteq> Some None"
proof
  assume "match_rx r s = Some None"
  then obtain s' where "exec r s = Some (s', None)"
    by (auto simp: match_rx_def)
  from exec_in_run [OF this] obtain t where "(s', None) \<in> set (run r (t, None))" ..
  with run_sets_group [OF assms] show False by blast
qed

lemma on_match_string:
  assumes "sets_group r"
  shows "\<exists>s'. on_match r (Some str) upd s = Inr s'"
  using match_rx_defines_group [OF assms, of str]
  by (auto simp: on_match_def split: option.splits)

lemma sets_group_section_regexes:
  "sets_group understanding_rx" "sets_group brute_rx" "sets_group optimized_rx"
  "sets_group time_rx" "sets_group space_rx" "sets_group edge_rx" "sets_group code_rx"
  "sets_group dry_run_rx" "sets_group follow_up_rx" "sets_group mistakes_rx"
  "sets_group variations_rx" "sets_group alt_follow_up_rx"
  by (simp_all add: understanding_rx_def brute_rx_def optimized_rx_def time_rx_def space_rx_def
        edge_rx_def code_rx_def dry_run_rx_def follow_up_rx_def mistakes_rx_def variations_rx_def
        alt_follow_up_rx_def numbered_section_rx_def heading_prefix_def)

lemma run_steps_no_error:
  assumes "\<forall>f \<in> set fs. \<forall>s. \<exists>s'. f s = Inr s'"
  shows "snd (run_steps fs s) = None"
  using assms
proof (induction fs arbitrary: s)
  case Nil
  then show ?case by simp
next
  case (Cons f fs)
  then have "\<exists>s'. f s = Inr s'" by simp
  then obtain s' where "f s = Inr s'" ..
  with Cons show ?case by simp
qed

lemma parse_body_string: "snd (parse_body (Some str)) = None"
  unfolding parse_body_def
proof (rule run_steps_no_error, intro ballI allI)
  fix f s
  assume "f \<in> set (parse_steps (Some str))"
  then show "\<exists>s'. f s = Inr s'"
    using on_match_string [OF sets_group_section_regexes(12), of str]
    by (auto simp: parse_steps_def fallback_follow_up_def
          intro: on_match_string sets_group_section_regexes)
qed

lemma parse_body_undefined: "parse_body None = (default_sections, Some JsTypeError)"
  by (simp add: parse_body_def parse_steps_def on_match_def)

lemma match_rx_empty:
  "match_rx understanding_rx [] = None" "match_rx brute_rx [] = None"
  "match_rx optimized_rx [] = None" "match_rx time_rx [] = None" "match_rx space_rx [] = None"
  "match_rx edge_rx [] = None" "match_rx code_rx [] = None" "match_rx dry_run_rx [] = None"
  "match_rx follow_up_rx [] = None" "match_rx mistakes_rx [] = None"
  "match_rx variations_rx [] = None" "match_rx alt_follow_up_rx [] = None"
  by (simp_all add: match_rx_def understanding_rx_def brute_rx_def optimized_rx_def time_rx_def
        space_rx_def edge_rx_def code_rx_def dry_run_rx_def follow_up_rx_def mistakes_rx_def
        variations_rx_def alt_follow_up_rx_def numbered_section_rx_def heading_prefix_def)

lemma parse_body_empty: "parse_body (Some []) = (default_sections, None)"
  by (simp add: parse_body_def parse_steps_def on_match_def fallback_follow_up_def
        match_rx_empty default_sections_def)

text \<open>
  C5. \<open>parseStructuredResponse\<close> returns a record for every input, the \<open>try\<close> block
  raising no error on any string. On the empty string it returns the record of defaults.
  Whenever the \<open>try\<close> block does raise, the result is the record of defaults with the raw
  input in \<open>understanding\<close>.
\<close>

theorem parseStructuredResponse_total:
  "snd (parse_body (Some str)) = None \<and>
   parseStructuredResponse (Some str) = fst (parse_body (Some str)) \<and>
   parseStructuredResponse (Some []) = default_sections \<and>
   (snd (parse_body llmResponse) = Some e \<longrightarrow>
      parseStructuredResponse llmResponse = default_sections\<lparr> understanding := llmResponse \<rparr>)"
proof (intro conjI impI)
  show "snd (parse_body (Some str)) = None" by (rule parse_body_string)
  then show "parseStructuredResponse (Some str) = fst (parse_body (Some str))"
    by (cases "parse_body (Some str)") (simp add: parseStructuredResponse_def)
  show "parseStructuredResponse (Some []) = default_sections"
    by (simp add: parseStructuredResponse_def parse_body_empty)
next
  assume raised: "snd (parse_body llmResponse) = Some e"
  have "llmResponse = None"
  proof (cases llmResponse)
    case (Some str)
    with raised parse_body_string [of str] show ?thesis by simp
  qed
  then show "parseStructuredResponse llmResponse = default_sections\<lparr> understanding := llmResponse \<rparr>"
    by (simp add: parseStructuredResponse_def parse_body_undefined)
qed

theorem parseStructuredResponse_total_witness:
  "snd (parse_body None) = Some JsTypeError \<and>
   parseStructuredResponse None = default_sections\<lparr> understanding := None \<rparr>"
  using parseStructuredResponse_total [of "[]" None JsTypeError]
  by (simp add: parse_body_undefined)

subsection \<open>The fenced JSON block\<close>

lemma starts_with_self: "starts_with p (p @ s)"
  by (induction p) simp_all

lemma starts_with_append_long:
  "length p \<le> length xs \<Longrightarrow> starts_with p (xs @ ys) = starts_with p xs"
proof (induction p xs rule: starts_with.induct)
  case (1 s)
  then show ?case by simp
next
  case (2 p ps)
  then show ?case by simp
next
  case (3 p ps c cs)
  then show ?case by simp
qed

lemma starts_with_inside:
  assumes "n < length xs"
  shows "starts_with p (drop n (xs @ p @ rest)) = starts_with p (drop n (xs @ p))"
proof -
  have "drop n (xs @ p @ rest) = drop n (xs @ p) @ rest"
    using assms by simp
  moreover have "length p \<le> length (drop n (xs @ p))"
    using assms by simp
  ultimately show ?thesis
    by (simp only: starts_with_append_long)
qed

lemma takeWhile_spaces:
  assumes "\<forall>c \<in> set ws. is_space c" and "rest = [] \<or> \<not> is_space (hd rest)"
  shows "takeWhile (in_class Space) (ws @ rest) = ws"
proof -
  have "takeWhile is_space (ws @ rest) = ws"
    using assms by (cases rest) (simp_all add: takeWhile_append2)
  moreover have "in_class Space = is_space" by (rule ext) simp
  ultimately show ?thesis by simp
qed

lemma run_Star_Space_head:
  assumes "\<forall>c \<in> set ws. is_space c" and "rest = [] \<or> \<not> is_space (hd rest)"
  shows "\<exists>ms. run (Star Space) (ws @ rest, g) = (rest, g) # ms"
  by (simp add: takeWhile_spaces [OF assms])

lemma concat_map_skip:
  assumes "\<forall>x \<in> set xs. f x = []"
  shows "concat (map f (xs @ ys)) = concat (map f ys)"
  using assms by (induction xs) simp_all

lemma run_Seq_head:
  assumes "run a st = x # xs" and "run b x = y # ys"
  shows "\<exists>ms. run (Seq a b) st = y # ms"
  using assms by simp

lemma run_Seq: "run (Seq a b) st = concat (map (run b) (run a st))"
  by simp

lemma run_Cap_StarLazy_AnyChar:
  "run (Cap (StarLazy AnyChar)) (s, g) = map (\<lambda>n. (drop n s, Some (take n s))) [0 ..< Suc (length s)]"
proof -
  have tw: "takeWhile (in_class AnyChar) s = s" by simp
  show ?thesis
    by (simp add: tw comp_def del: upt_Suc cong: map_cong)
qed

lemma run_lazy_until:
  assumes "\<forall>n < length body. \<not> starts_with p (drop n (body @ p))"
  shows "\<exists>ms. run (Seq (Cap (StarLazy AnyChar)) (Lit p)) (body @ p @ post, g) = (post, Some body) # ms"
proof -
  let ?s = "body @ p @ post"
  let ?f = "\<lambda>n. run (Lit p) (drop n ?s, Some (take n ?s))"
  have split: "[0 ..< Suc (length ?s)]
                 = [0 ..< length body] @ length body # [Suc (length body) ..< Suc (length ?s)]"
  proof -
    have "[0 ..< Suc (length ?s)] = [0 ..< length body] @ [length body ..< Suc (length ?s)]"
      using upt_add_eq_append [of 0 "length body" "Suc (length p + length post)"] by simp
    moreover have "[length body ..< Suc (length ?s)] = length body # [Suc (length body) ..< Suc (length ?s)]"
      by (rule upt_conv_Cons) simp
    ultimately show ?thesis by simp
  qed
  have skip: "\<forall>n \<in> set [0 ..< length body]. ?f n = []"
  proof
    fix n assume "n \<in> set [0 ..< length body]"
    then have n: "n < length body" by simp
    with assms have "\<not> starts_with p (drop n (body @ p))" by blast
    with starts_with_inside [OF n, of p post] have "\<not> starts_with p (drop n ?s)" by simp
    then show "?f n = []" by simp
  qed
  have hit: "?f (length body) = [(post, Some body)]"
    by (simp add: starts_with_self)
  have "run (Seq (Cap (StarLazy AnyChar)) (Lit p)) (?s, g) = concat (map ?f [0 ..< Suc (length ?s)])"
    by (simp only: run_Seq run_Cap_StarLazy_AnyChar map_map comp_def)
  also have "\<dots> = concat (map ?f (length body # [Suc (length body) ..< Suc (length ?s)]))"
    by (simp only: split concat_map_skip [OF skip])
  also have "\<dots> = (post, Some body) # concat (map ?f [Suc (length body) ..< Suc (length ?s)])"
    by (simp only: list.map concat.simps hit append_Cons append_Nil)
  finally show ?thesis by blast
qed

lemma run_fence_rx_head:
  assumes "\<forall>c \<in> set ws. is_space c"
    and "body = [] \<or> \<not> is_space (hd body)"
    and "\<forall>n < length body. \<not> starts_with ''```'' (drop n (body @ ''```''))"
  shows "\<exists>ms. run fence_rx (''```json'' @ ws @ body @ ''```'' @ post, None) = (post, Some body) # ms"
proof -
  let ?rest = "body @ ''```'' @ post"
  have nsp: "?rest = [] \<or> \<not> is_space (hd ?rest)"
    using assms(2) by (cases body) (simp_all add: is_space_def)
  obtain m1 where r1: "run (Lit ''```json'') (''```json'' @ ws @ ?rest, None) = (ws @ ?rest, None) # m1"
    by simp
  from run_Star_Space_head [OF assms(1) nsp, of None]
  obtain m2 where r2: "run (Star Space) (ws @ ?rest, None) = (?rest, None) # m2" ..
  from run_lazy_until [OF assms(3), of post None]
  obtain m3 where r3: "run (Seq (Cap (StarLazy AnyChar)) (Lit ''```'')) (?rest, None) = (post, Some body) # m3" ..
  from run_Seq_head [OF r2 r3]
  obtain m4 where r4: "run (Seq (Star Space) (Seq (Cap (StarLazy AnyChar)) (Lit ''```''))) (ws @ ?rest, None)
                        = (post, Some body) # m4" ..
  from run_Seq_head [OF r1 r4]
  obtain m5 where "run (Seq (Lit ''```json'') (Seq (Star Space) (Seq (Cap (StarLazy AnyChar)) (Lit ''```''))))
                        (''```json'' @ ws @ ?rest, None) = (post, Some body) # m5" ..
  then show ?thesis
    by (simp only: fence_rx_def seqs.simps) blast
qed

lemma run_fence_rx_no_tag:
  "\<not> starts_with ''```json'' s \<Longrightarrow> run fence_rx (s, g) = []"
  by (simp add: fence_rx_def)

lemma exec_head: "run r (s, None) = m # ms \<Longrightarrow> exec r s = Some m"
  by (cases s) simp_all

lemma exec_skip:
  assumes "\<forall>n < length pre. run r (drop n (pre @ s), None) = []"
  shows "exec r (pre @ s) = exec r s"
  using assms
proof (induction pre)
  case Nil
  then show ?case by simp
next
  case (Cons c pre)
  from Cons.prems have h: "run r ((c # pre) @ s, None) = []"
    by (metis drop0 length_greater_0_conv list.distinct(1))
  have "\<forall>n < length pre. run r (drop n (pre @ s), None) = []"
  proof (intro allI impI)
    fix n assume "n < length pre"
    then have "Suc n < length (c # pre)" by simp
    with Cons.prems have "run r (drop (Suc n) ((c # pre) @ s), None) = []" by blast
    then show "run r (drop n (pre @ s), None) = []" by simp
  qed
  with Cons.IH have "exec r (pre @ s) = exec r s" by blast
  with h show ?case by simp
qed

lemma match_fenced_block:
  assumes "\<forall>n < length pre. \<not> starts_with ''```json'' (drop n (pre @ ''```json''))"
    and "\<forall>c \<in> set ws. is_space c"
    and "body = [] \<or> \<not> is_space (hd body)"
    and "\<forall>n < length body. \<not> starts_with ''```'' (drop n (body @ ''```''))"
  shows "match_rx fence_rx (pre @ ''```json'' @ ws @ body @ ''```'' @ post) = Some (Some body)"
proof -
  let ?s = "''```json'' @ ws @ body @ ''```'' @ post"
  have "\<forall>n < length pre. run fence_rx (drop n (pre @ ?s), None) = []"
  proof (intro allI impI)
    fix n assume n: "n < length pre"
    with assms(1) have "\<not> starts_with ''```json'' (drop n (pre @ ''```json''))" by blast
    with starts_with_inside [OF n, of "''```json''" "ws @ body @ ''```'' @ post"]
    have "\<not> starts_with ''```json'' (drop n (pre @ ?s))" by simp
    then show "run fence_rx (drop n (pre @ ?s), None) = []" by (rule run_fence_rx_no_tag)
  qed
  then have "exec fence_rx (pre @ ?s) = exec fence_rx ?s" by (rule exec_skip)
  moreover from run_fence_rx_head [OF assms(2,3,4), of post]
  obtain ms where "run fence_rx (?s, None) = (post, Some body) # ms" ..
  then have "exec fence_rx ?s = Some (post, Some body)" by (rule exec_head)
  ultimately show ?thesis by (simp add: match_rx_def)
qed

lemma no_first_char_no_prefix:
  assumes "n < length xs" and "c \<notin> set xs"
  shows "\<not> starts_with (c # ps) (drop n (xs @ ys))"
proof -
  have "drop n (xs @ ys) = xs ! n # drop (Suc n) xs @ ys"
    using assms(1) by (simp add: Cons_nth_drop_Suc)
  moreover have "xs ! n \<noteq> c"
    using assms by (metis nth_mem)
  ultimately show ?thesis by simp
qed

lemma default_evaluation_fields:
  "field ''score'' (default_evaluation reply) = Some (JNum (Fin 0))"
  "field ''raw_response'' (default_evaluation reply) = Some (JStr reply)"
  "\<exists>b. field ''breakdown'' (default_evaluation reply) = Some b \<and>
       (\<forall>c \<in> set [''correctness'', ''time_complexity'', ''space_complexity'', ''code_quality'', ''edge_cases''].
          \<exists>e. field c b = Some e \<and> field ''score'' e = Some (JNum (Fin 0)) \<and>
               field ''feedback'' e = Some (JStr ''Unable to evaluate''))"
  by (simp_all add: default_evaluation_def)

text \<open>
  C6, counterexample. A text can hold a fenced JSON block in the rubric schema and still
  be answered with the default record. In the text below a first fenced block that is not
  JSON precedes the block with the evaluation; the regex takes the first block,
  \<open>JSON.parse\<close> rejects it, and the second block is never looked at.
\<close>

theorem parseEvaluationResponse_later_block_counterexample:
  "example_json_parse example_json_text = Some example_evaluation \<and>
   parseEvaluationResponse example_json_parse
     (''```json'' @ [CHR 0x0A] @ ''not json'' @ [CHR 0x0A] @ ''```'' @ [CHR 0x0A] @
      ''```json'' @ [CHR 0x0A] @ example_json_text @ ''```'')
     \<noteq> example_evaluation"
proof -
  let ?post = "[CHR 0x0A] @ ''```json'' @ [CHR 0x0A] @ example_json_text @ ''```''"
  let ?reply = "''```json'' @ [CHR 0x0A] @ (''not json'' @ [CHR 0x0A]) @ ''```'' @ ?post"
  have "\<forall>n < length (''not json'' @ [CHR 0x0A]).
          \<not> starts_with ''```'' (drop n ((''not json'' @ [CHR 0x0A]) @ ''```''))"
    by (intro allI impI no_first_char_no_prefix) simp_all
  then have "match_rx fence_rx ([] @ ?reply) = Some (Some (''not json'' @ [CHR 0x0A]))"
    by (intro match_fenced_block) (simp_all add: is_space_def)
  moreover have "example_json_parse (''not json'' @ [CHR 0x0A]) = None"
    by (simp add: example_json_parse_def example_json_text_def)
  ultimately have "parseEvaluationResponse example_json_parse ?reply = default_evaluation ?reply"
    by (simp add: parseEvaluationResponse_def)
  moreover have "default_evaluation ?reply \<noteq> example_evaluation"
    by (simp add: default_evaluation_def example_evaluation_def)
  moreover have "example_json_parse example_json_text = Some example_evaluation"
    by (simp add: example_json_parse_def)
  ultimately show ?thesis by simp
qed

text \<open>
  C6, amended. Let the first \<open>```json\<close> tag of a text be followed by white space, a body
  that does not begin with white space, and the first \<open>```\<close> after it. If \<open>JSON.parse\<close>
  accepts the body, \<open>parseEvaluationResponse\<close> returns the parsed value as it is. If
  \<open>JSON.parse\<close> rejects what the function hands to it (the body of the first fenced block
  when there is one, the whole text otherwise), the result is the default record: score 0,
  each of the five sub-scores 0 with feedback \<open>Unable to evaluate\<close>, and the raw text
  attached. For every text the function returns one of the two, so no error leaves it.
\<close>

theorem parseEvaluationResponse_first_fence_or_default:
  "((\<forall>n < length pre. \<not> starts_with ''```json'' (drop n (pre @ ''```json''))) \<and>
    (\<forall>c \<in> set ws. is_space c) \<and>
    (body = [] \<or> \<not> is_space (hd body)) \<and>
    (\<forall>n < length body. \<not> starts_with ''```'' (drop n (body @ ''```''))) \<and>
    json_parse body = Some v \<longrightarrow>
      parseEvaluationResponse json_parse (pre @ ''```json'' @ ws @ body @ ''```'' @ post) = v) \<and>
   ((case match_rx fence_rx reply of
       Some (Some g) \<Rightarrow> json_parse g = None
     | _ \<Rightarrow> json_parse reply = None) \<longrightarrow>
      parseEvaluationResponse json_parse reply = default_evaluation reply) \<and>
   field ''score'' (default_evaluation reply) = Some (JNum (Fin 0)) \<and>
   field ''raw_response'' (default_evaluation reply) = Some (JStr reply) \<and>
   (\<exists>b. field ''breakdown'' (default_evaluation reply) = Some b \<and>
       (\<forall>c \<in> set [''correctness'', ''time_complexity'', ''space_complexity'', ''code_quality'', ''edge_cases''].
          \<exists>e. field c b = Some e \<and> field ''score'' e = Some (JNum (Fin 0)) \<and>
               field ''feedback'' e = Some (JStr ''Unable to evaluate''))) \<and>
   (parseEvaluationResponse json_parse reply = default_evaluation reply \<or>
    (\<exists>g. json_parse g = Some (parseEvaluationResponse json_parse reply)))"
proof (intro conjI impI)
  assume a: "(\<forall>n < length pre. \<not> starts_with ''```json'' (drop n (pre @ ''```json''))) \<and>
    (\<forall>c \<in> set ws. is_space c) \<and>
    (body = [] \<or> \<not> is_space (hd body)) \<and>
    (\<forall>n < length body. \<not> starts_with ''```'' (drop n (body @ ''```''))) \<and>
    json_parse body = Some v"
  then have "match_rx fence_rx (pre @ ''```json'' @ ws @ body @ ''```'' @ post) = Some (Some body)"
    by (intro match_fenced_block) blast+
  with a show "parseEvaluationResponse json_parse (pre @ ''```json'' @ ws @ body @ ''```'' @ post) = v"
    by (simp add: parseEvaluationResponse_def)
next
  assume "case match_rx fence_rx reply of
       Some (Some g) \<Rightarrow> json_parse g = None
     | _ \<Rightarrow> json_parse reply = None"
  then show "parseEvaluationResponse json_parse reply = default_evaluation reply"
    by (auto simp: parseEvaluationResponse_def split: option.splits)
next
  show "parseEvaluationResponse json_parse reply = default_evaluation reply \<or>
    (\<exists>g. json_parse g = Some (parseEvaluationResponse json_parse reply))"
    by (auto simp: parseEvaluationResponse_def split: option.splits)
qed (rule default_evaluation_fields)+

theorem parseEvaluationResponse_first_fence_or_default_witness:
  "CHR 0x60 \<notin> set ''Evaluation: '' \<and>
   is_space (CHR 0x0A) \<and>
   \<not> is_space (hd example_json_text) \<and>
   CHR 0x60 \<notin> set example_json_text \<and>
   example_json_parse example_json_text = Some example_evaluation \<and>
   parseEvaluationResponse example_json_parse
     (''Evaluation: '' @ ''```json'' @ [CHR 0x0A] @ example_json_text @ ''```'' @ '' Good luck.'')
     = example_evaluation \<and>
   match_rx fence_rx ''no json here'' = None \<and>
   example_json_parse ''no json here'' = None \<and>
   parseEvaluationResponse example_json_parse ''no json here'' = default_evaluation ''no json here'' \<and>
   ''correctness'' \<in> set [''correctness'', ''time_complexity'', ''space_complexity'', ''code_quality'', ''edge_cases'']"
proof -
  let ?pre = "''Evaluation: ''"
  have b1: "CHR 0x60 \<notin> set ?pre"
    by simp
  have b2: "is_space (CHR 0x0A)"
    by (simp add: is_space_def)
  have b4: "CHR 0x60 \<notin> set example_json_text"
    by (simp add: example_json_text_def dq_def)
  have h1: "\<forall>n < length ?pre. \<not> starts_with ''```json'' (drop n (?pre @ ''```json''))"
    using b1 by (intro allI impI no_first_char_no_prefix)
  have h2: "\<forall>c \<in> set [CHR 0x0A]. is_space c"
    using b2 by simp
  have h3: "\<not> is_space (hd example_json_text)"
    by (simp add: example_json_text_def is_space_def)
  have h4: "\<forall>n < length example_json_text. \<not> starts_with ''```'' (drop n (example_json_text @ ''```''))"
    using b4 by (intro allI impI no_first_char_no_prefix)
  have h5: "example_json_parse example_json_text = Some example_evaluation"
    by (simp add: example_json_parse_def)
  have h6: "match_rx fence_rx ''no json here'' = None"
    by (simp add: match_rx_def fence_rx_def)
  have h7: "example_json_parse ''no json here'' = None"
    by (simp add: example_json_parse_def example_json_text_def)
  note t = parseEvaluationResponse_first_fence_or_default [of ?pre "[CHR 0x0A]" example_json_text
      example_json_parse example_evaluation "'' Good luck.''" "''no json here''"]
  from t h1 h2 h3 h4 h5 have c1: "parseEvaluationResponse example_json_parse
     (?pre @ ''```json'' @ [CHR 0x0A] @ example_json_text @ ''```'' @ '' Good luck.'')
     = example_evaluation"
    by blast
  from t h6 h7 have c2: "parseEvaluationResponse example_json_parse ''no json here''
     = default_evaluation ''no json here''"
    by simp
  have c3: "''correctness'' \<in> set [''correctness'', ''time_complexity'', ''space_complexity'',
      ''code_quality'', ''edge_cases'']"
    by simp
  show ?thesis
    using b1 b2 h3 b4 h5 c1 h6 h7 c2 c3 by blast
qed

section \<open>Properties of the vector store service\<close>

lemma num_ge_trans: "num_ge a b \<Longrightarrow> num_ge b c \<Longrightarrow> num_ge a c"
  by (cases a; cases b; cases c) simp_all

lemma num_ge_not_lt: "num_ge a b \<Longrightarrow> \<not> num_lt a b"
  by (cases a; cases b) simp_all

lemma format_results_invariant:
  assumes "format_results docs labels distances i results = Inr rs"
    and "\<forall>r \<in> set results. P r"
    and "\<And>j. j < length labels \<Longrightarrow> j < length distances \<Longrightarrow> 0 \<le> labels ! j \<Longrightarrow>
           labels ! j < int (length docs) \<Longrightarrow>
           P \<lparr> document = docs ! nat (labels ! j), score = distances ! j, rank = j + 1 \<rparr>"
  shows "\<forall>r \<in> set rs. P r"
  using assms
proof (induction docs labels distances i results rule: format_results.induct)
  case (1 docs labels distances i results)
  show ?case
  proof (cases "i < length labels")
    case False
    with "1.prems" show ?thesis by simp
  next
    case True
    show ?thesis
    proof (cases "i < length distances")
      case False
      with True "1.prems" show ?thesis by simp
    next
      case d: True
      let ?idx = "labels ! i"
      let ?new = "(if ?idx \<ge> 0 \<and> ?idx < int (length docs)
                  then results @ [\<lparr> document = docs ! nat ?idx, score = distances ! i, rank = i + 1 \<rparr>]
                  else results)"
      have step: "format_results docs labels distances (i + 1) ?new = Inr rs"
        using "1.prems"(1) True d by (simp add: Let_def)
      have inv: "\<forall>r \<in> set ?new. P r"
        using "1.prems"(2) "1.prems"(3) [OF True d] by auto
      show ?thesis
        by (rule "1.IH" [OF True d refl refl step inv "1.prems"(3)])
    qed
  qed
qed

lemma format_results_documents:
  assumes "format_results docs labels distances 0 [] = Inr rs"
  shows "\<forall>r \<in> set rs. document r \<in> set docs"
  by (rule format_results_invariant [OF assms]) simp_all

lemma format_results_labels:
  assumes "format_results docs labels distances 0 [] = Inr rs"
  shows "\<forall>r \<in> set rs. 1 \<le> rank r \<and> rank r \<le> length labels \<and>
            0 \<le> labels ! (rank r - 1) \<and> labels ! (rank r - 1) < int (length docs) \<and>
            document r = docs ! nat (labels ! (rank r - 1))"
  by (rule format_results_invariant [OF assms]) simp_all

lemma ensure_initialized_threshold:
  "ensure_initialized w (sv\<lparr>similarityThreshold := t\<rparr>) =
     map_sum id (\<lambda>v. v\<lparr>similarityThreshold := t\<rparr>) (ensure_initialized w sv)"
  by (simp add: ensure_initialized_def initialize_def split: option.splits)

lemma ensure_initialized_keeps_threshold:
  "ensure_initialized w sv = Inr sv1 \<Longrightarrow> similarityThreshold sv1 = similarityThreshold sv"
  by (auto simp: ensure_initialized_def initialize_def split: option.splits if_splits)

text \<open>
  The results of \<open>search_body\<close> are the candidates that the loop over the labels formats,
  filtered by the threshold; the candidates do not depend on the threshold.
\<close>

lemma search_body_as_filter:
  "\<exists>rs. (\<forall>r \<in> set rs. document r \<in> set (documents sv)) \<and>
        (\<forall>t. fst (search_body w q k (sv\<lparr>similarityThreshold := t\<rparr>))
               = filter (\<lambda>r. num_ge (score r) t) rs)"
proof -
  let ?k2 = "min (case k of None \<Rightarrow> topK sv | Some n \<Rightarrow> if n = 0 then topK sv else n)
                 (int (length (documents sv)))"
  have kk: "(case k of None \<Rightarrow> topK (sv\<lparr>similarityThreshold := t\<rparr>)
               | Some n \<Rightarrow> if n = 0 then topK (sv\<lparr>similarityThreshold := t\<rparr>) else n)
            = (case k of None \<Rightarrow> topK sv | Some n \<Rightarrow> if n = 0 then topK sv else n)" for t
    by (cases k) simp_all
  have none: ?thesis if "\<forall>t. fst (search_body w q k (sv\<lparr>similarityThreshold := t\<rparr>)) = []"
  proof -
    from that have "\<forall>t. fst (search_body w q k (sv\<lparr>similarityThreshold := t\<rparr>))
               = filter (\<lambda>r. num_ge (score r) t) []"
      by simp
    then show ?thesis by (intro exI [of _ "[]"]) simp
  qed
  show ?thesis
  proof (cases "documents sv = []")
    case True
    then show ?thesis by (intro none) (simp add: search_body_def)
  next
    case docs: False
    show ?thesis
    proof (cases "embed w q")
      case (Inl e)
      with docs show ?thesis by (intro none) (simp add: search_body_def Let_def)
    next
      case (Inr qe)
      show ?thesis
      proof (cases "index_search w (normalizeVector w qe) ?k2")
        case (Inl e)
        with docs Inr show ?thesis by (intro none) (simp add: search_body_def Let_def kk)
      next
        case ix: (Inr p)
        obtain labels distances where p: "p = (labels, distances)" by (cases p)
        show ?thesis
        proof (cases "format_results (documents sv) labels distances 0 []")
          case (Inl e)
          with docs Inr ix p show ?thesis by (intro none) (simp add: search_body_def Let_def kk)
        next
          case fr: (Inr rs)
          have "\<forall>t. fst (search_body w q k (sv\<lparr>similarityThreshold := t\<rparr>))
                  = filter (\<lambda>r. num_ge (score r) t) rs"
            using docs Inr ix p fr by (simp add: search_body_def Let_def kk)
          with format_results_documents [OF fr] show ?thesis by blast
        qed
      qed
    qed
  qed
qed

lemma search_Inr_iff:
  "search w q k sv = Inr (rs, calls, sv1) \<longleftrightarrow>
     ensure_initialized w sv = Inr sv1 \<and> search_body w q k sv1 = (rs, calls)"
  by (auto simp: search_def split: sum.splits prod.splits)

lemma search_results_above_threshold:
  assumes "search w q k sv = Inr (rs, calls, sv1)"
  shows "\<forall>r \<in> set rs. num_ge (score r) (similarityThreshold sv)"
proof -
  from assms have i: "ensure_initialized w sv = Inr sv1" and b: "search_body w q k sv1 = (rs, calls)"
    by (simp_all add: search_Inr_iff)
  from search_body_as_filter [of sv1 w q k] obtain cs where
    "\<forall>t. fst (search_body w q k (sv1\<lparr>similarityThreshold := t\<rparr>)) = filter (\<lambda>r. num_ge (score r) t) cs"
    by blast
  from this [rule_format, of "similarityThreshold sv1"] b
  have "rs = filter (\<lambda>r. num_ge (score r) (similarityThreshold sv1)) cs" by simp
  then show ?thesis
    using ensure_initialized_keeps_threshold [OF i] by simp
qed

lemma search_threshold_monotone:
  assumes "num_le t1 t2"
    and "search w q k (sv\<lparr>similarityThreshold := t2\<rparr>) = Inr (rs2, calls2, sv2)"
  shows "\<exists>rs1 calls1 sv1. search w q k (sv\<lparr>similarityThreshold := t1\<rparr>) = Inr (rs1, calls1, sv1) \<and>
           set rs2 \<subseteq> set rs1"
proof -
  from assms(2) have "ensure_initialized w (sv\<lparr>similarityThreshold := t2\<rparr>) = Inr sv2"
    and b2: "search_body w q k sv2 = (rs2, calls2)"
    by (simp_all add: search_Inr_iff)
  then obtain v where v: "ensure_initialized w sv = Inr v" and sv2: "sv2 = v\<lparr>similarityThreshold := t2\<rparr>"
    by (cases "ensure_initialized w sv") (auto simp: ensure_initialized_threshold)
  from search_body_as_filter [of v w q k] obtain cs where
    cs: "\<And>t. fst (search_body w q k (v\<lparr>similarityThreshold := t\<rparr>)) = filter (\<lambda>r. num_ge (score r) t) cs"
    by blast
  let ?v1 = "v\<lparr>similarityThreshold := t1\<rparr>"
  have i1: "ensure_initialized w (sv\<lparr>similarityThreshold := t1\<rparr>) = Inr ?v1"
    using v by (simp add: ensure_initialized_threshold)
  obtain rs1 calls1 where b1: "search_body w q k ?v1 = (rs1, calls1)"
    by (cases "search_body w q k ?v1")
  have "rs2 = filter (\<lambda>r. num_ge (score r) t2) cs"
    using cs [of t2] b2 sv2 by simp
  moreover have "rs1 = filter (\<lambda>r. num_ge (score r) t1) cs"
    using cs [of t1] b1 by simp
  ultimately have "set rs2 \<subseteq> set rs1"
    using assms(1) by (auto simp: num_le_def intro: num_ge_trans)
  moreover have "search w q k (sv\<lparr>similarityThreshold := t1\<rparr>) = Inr (rs1, calls1, ?v1)"
    using i1 b1 by (simp add: search_Inr_iff)
  ultimately show ?thesis by blast
qed

text \<open>
  The filter of \<open>search\<close>, in terms of the threshold the service holds: every returned
  score satisfies \<open>score >= threshold\<close>, and for a fixed query, requested \<open>k\<close>, corpus
  and behaviour of the embedding provider and the index, a search with a lower value in
  that field returns every result that the search with the higher value returns.
\<close>

theorem search_respects_threshold:
  "(\<forall>rs calls sv1. search w q k sv = Inr (rs, calls, sv1) \<longrightarrow>
      (\<forall>r \<in> set rs. num_ge (score r) (similarityThreshold sv) \<and>
                     \<not> num_lt (score r) (similarityThreshold sv))) \<and>
   (num_le t1 t2 \<longrightarrow>
      (\<forall>rs2 calls2 sv2. search w q k (sv\<lparr>similarityThreshold := t2\<rparr>) = Inr (rs2, calls2, sv2) \<longrightarrow>
         (\<exists>rs1 calls1 sv1. search w q k (sv\<lparr>similarityThreshold := t1\<rparr>) = Inr (rs1, calls1, sv1) \<and>
            set rs2 \<subseteq> set rs1)))"
proof (intro conjI allI impI)
  fix rs calls sv1
  assume "search w q k sv = Inr (rs, calls, sv1)"
  from search_results_above_threshold [OF this]
  show "\<forall>r \<in> set rs. num_ge (score r) (similarityThreshold sv) \<and>
                     \<not> num_lt (score r) (similarityThreshold sv)"
    by (auto dest: num_ge_not_lt)
next
  fix rs2 calls2 sv2
  assume "num_le t1 t2" "search w q k (sv\<lparr>similarityThreshold := t2\<rparr>) = Inr (rs2, calls2, sv2)"
  then show "\<exists>rs1 calls1 sv1. search w q k (sv\<lparr>similarityThreshold := t1\<rparr>) = Inr (rs1, calls1, sv1) \<and>
            set rs2 \<subseteq> set rs1"
    by (rule search_threshold_monotone)
qed

lemma example_format_results:
  "format_results [two_sum, reverse_list] [0, 1, 7] [Fin 0.9, Fin 0.5, Fin 0.95] 0 [] =
     Inr [\<lparr>document = two_sum, score = Fin 0.9, rank = 1\<rparr>,
          \<lparr>document = reverse_list, score = Fin 0.5, rank = 2\<rparr>]"
  by (simp add: Let_def)

lemma example_search:
  "search example_world q (Some k) (example_store\<lparr>similarityThreshold := Fin t\<rparr>) =
     Inr (filter (\<lambda>r. num_ge (score r) (Fin t))
            [\<lparr>document = two_sum, score = Fin 0.9, rank = 1\<rparr>,
             \<lparr>document = reverse_list, score = Fin 0.5, rank = 2\<rparr>],
          [EmbedCall q, IndexSearchCall [Fin 1, Fin 0] (min (if k = 0 then 5 else k) 2)],
          example_store\<lparr>similarityThreshold := Fin t\<rparr>)"
  by (simp add: search_def search_body_def example_world_def example_store_def
        ensure_initialized_def Let_def)

theorem search_respects_threshold_witness:
  "num_le (Fin 0.3) (Fin 0.7) \<and>
   search example_world ''pair with given sum'' (Some 2) (example_store\<lparr>similarityThreshold := Fin 0.7\<rparr>)
     = Inr ([\<lparr>document = two_sum, score = Fin 0.9, rank = 1\<rparr>],
            [EmbedCall ''pair with given sum'', IndexSearchCall [Fin 1, Fin 0] 2],
            example_store\<lparr>similarityThreshold := Fin 0.7\<rparr>) \<and>
   num_ge (Fin 0.9) (Fin 0.7) \<and> \<not> num_lt (Fin 0.9) (Fin 0.7) \<and>
   (\<exists>rs1 calls1 sv1.
      search example_world ''pair with given sum'' (Some 2) (example_store\<lparr>similarityThreshold := Fin 0.3\<rparr>)
        = Inr (rs1, calls1, sv1) \<and>
      set [\<lparr>document = two_sum, score = Fin 0.9, rank = 1\<rparr>] \<subseteq> set rs1)"
proof -
  let ?q = "''pair with given sum''"
  let ?hi = "example_store\<lparr>similarityThreshold := Fin 0.7\<rparr>"
  let ?r = "\<lparr>document = two_sum, score = Fin 0.9, rank = 1\<rparr>"
  let ?calls = "[EmbedCall ?q, IndexSearchCall [Fin 1, Fin 0] 2]"
  have h: "num_le (Fin 0.3) (Fin 0.7)" by (simp add: num_le_def)
  have e: "search example_world ?q (Some 2) ?hi = Inr ([?r], ?calls, ?hi)"
    using example_search [of ?q 2 "0.7"] by simp
  have e': "search example_world ?q (Some 2) (?hi\<lparr>similarityThreshold := Fin 0.7\<rparr>) = Inr ([?r], ?calls, ?hi)"
    using e by simp
  note t = search_respects_threshold [of example_world ?q "Some 2" ?hi "Fin 0.3" "Fin 0.7"]
  from t e have a: "\<forall>r \<in> set [?r]. num_ge (score r) (similarityThreshold ?hi) \<and>
                     \<not> num_lt (score r) (similarityThreshold ?hi)"
    by blast
  from t h e' have "\<exists>rs1 calls1 sv1.
      search example_world ?q (Some 2) (?hi\<lparr>similarityThreshold := Fin 0.3\<rparr>) = Inr (rs1, calls1, sv1) \<and>
      set [?r] \<subseteq> set rs1"
    by blast
  then have b: "\<exists>rs1 calls1 sv1.
      search example_world ?q (Some 2) (example_store\<lparr>similarityThreshold := Fin 0.3\<rparr>) = Inr (rs1, calls1, sv1) \<and>
      set [?r] \<subseteq> set rs1"
    by simp
  from a have c: "num_ge (Fin 0.9) (Fin 0.7) \<and> \<not> num_lt (Fin 0.9) (Fin 0.7)"
    by simp
  show ?thesis
    using h e b c by blast
qed

text \<open>
  C10. When initialization succeeds, a requested \<open>k\<close> above the number of stored documents
  gives exactly what \<open>k\<close> equal to that number gives (result, external calls and service),
  and that is a result, not an error. On an empty store \<open>search\<close> returns the empty list
  and makes no external call, the embedding provider included. Every result holds a
  document of the store, and it comes from a label that is a valid index of the documents
  list: the loop over the labels keeps a label only if it lies in range, and the document
  of a result is the one stored at its label.
\<close>

theorem search_clamps_k_and_checks_labels:
  "(ensure_initialized w sv = Inr sv1 \<and> int (length (documents sv1)) < k \<longrightarrow>
      search w q (Some k) sv = search w q (Some (int (length (documents sv1)))) sv \<and>
      (\<exists>rs calls. search w q (Some k) sv = Inr (rs, calls, sv1))) \<and>
   (ensure_initialized w sv = Inr sv1 \<and> documents sv1 = [] \<longrightarrow>
      search w q ko sv = Inr ([], [], sv1)) \<and>
   (\<forall>rs calls sv2. search w q ko sv = Inr (rs, calls, sv2) \<longrightarrow>
      (\<forall>r \<in> set rs. document r \<in> set (documents sv2))) \<and>
   (format_results docs labels distances 0 [] = Inr results \<longrightarrow>
      (\<forall>r \<in> set results. 1 \<le> rank r \<and> rank r \<le> length labels \<and>
            0 \<le> labels ! (rank r - 1) \<and> labels ! (rank r - 1) < int (length docs) \<and>
            document r = docs ! nat (labels ! (rank r - 1))))"
proof (intro conjI impI allI)
  assume a: "ensure_initialized w sv = Inr sv1 \<and> int (length (documents sv1)) < k"
  then have "search_body w q (Some k) sv1 = search_body w q (Some (int (length (documents sv1)))) sv1"
    by (simp add: search_body_def Let_def min_def)
  with a show "search w q (Some k) sv = search w q (Some (int (length (documents sv1)))) sv"
    by (simp add: search_def)
  from a show "\<exists>rs calls. search w q (Some k) sv = Inr (rs, calls, sv1)"
    by (cases "search_body w q (Some k) sv1") (simp add: search_Inr_iff)
next
  assume "ensure_initialized w sv = Inr sv1 \<and> documents sv1 = []"
  then show "search w q ko sv = Inr ([], [], sv1)"
    by (simp add: search_def search_body_def)
next
  fix rs calls sv2
  assume "search w q ko sv = Inr (rs, calls, sv2)"
  then have b: "search_body w q ko sv2 = (rs, calls)"
    by (simp add: search_Inr_iff)
  from search_body_as_filter [of sv2 w q ko] obtain cs where
    cs: "\<forall>r \<in> set cs. document r \<in> set (documents sv2)"
    and "\<forall>t. fst (search_body w q ko (sv2\<lparr>similarityThreshold := t\<rparr>)) = filter (\<lambda>r. num_ge (score r) t) cs"
    by blast
  from this(2) [rule_format, of "similarityThreshold sv2"] b
  have "set rs \<subseteq> set cs" by auto
  with cs show "\<forall>r \<in> set rs. document r \<in> set (documents sv2)" by blast
next
  assume "format_results docs labels distances 0 [] = Inr results"
  then show "\<forall>r \<in> set results. 1 \<le> rank r \<and> rank r \<le> length labels \<and>
            0 \<le> labels ! (rank r - 1) \<and> labels ! (rank r - 1) < int (length docs) \<and>
            document r = docs ! nat (labels ! (rank r - 1))"
    by (rule format_results_labels)
qed

theorem search_clamps_k_and_checks_labels_witness:
  "ensure_initialized example_world example_store = Inr example_store \<and>
   int (length (documents example_store)) < 10 \<and>
   search example_world ''pair with given sum'' (Some 10) example_store
     = search example_world ''pair with given sum'' (Some 2) example_store \<and>
   ensure_initialized example_world (example_store\<lparr>isInitialized := False\<rparr>)
     = Inr (example_store\<lparr>documents := []\<rparr>) \<and>
   search example_world ''pair with given sum'' None (example_store\<lparr>isInitialized := False\<rparr>)
     = Inr ([], [], example_store\<lparr>documents := []\<rparr>) \<and>
   search example_world ''pair with given sum'' (Some 10) example_store
     = Inr ([\<lparr>document = two_sum, score = Fin 0.9, rank = 1\<rparr>],
            [EmbedCall ''pair with given sum'', IndexSearchCall [Fin 1, Fin 0] 2], example_store) \<and>
   two_sum \<in> set (documents example_store) \<and>
   format_results [two_sum, reverse_list] [0, 1, 7] [Fin 0.9, Fin 0.5, Fin 0.95] 0 [] =
     Inr [\<lparr>document = two_sum, score = Fin 0.9, rank = 1\<rparr>,
          \<lparr>document = reverse_list, score = Fin 0.5, rank = 2\<rparr>] \<and>
   (0::int) \<le> [0, 1, 7] ! (2 - 1) \<and> [0, 1, 7] ! (2 - 1) < int (length [two_sum, reverse_list])"
proof -
  let ?q = "''pair with given sum''"
  let ?cold = "example_store\<lparr>isInitialized := False\<rparr>"
  let ?r1 = "\<lparr>document = two_sum, score = Fin 0.9, rank = 1\<rparr>"
  let ?r2 = "\<lparr>document = reverse_list, score = Fin 0.5, rank = 2\<rparr>"
  have i1: "ensure_initialized example_world example_store = Inr example_store"
    by (simp add: ensure_initialized_def example_store_def)
  have h1: "int (length (documents example_store)) < 10"
    by (simp add: example_store_def)
  have n: "int (length (documents example_store)) = 2"
    by (simp add: example_store_def)
  have i2: "ensure_initialized example_world ?cold = Inr (example_store\<lparr>documents := []\<rparr>)"
    by (simp add: ensure_initialized_def initialize_def example_world_def example_store_def)
  have h2: "documents (example_store\<lparr>documents := []\<rparr>) = []"
    by simp
  have e: "search example_world ?q (Some 10) example_store
     = Inr ([?r1], [EmbedCall ?q, IndexSearchCall [Fin 1, Fin 0] 2], example_store)"
    using example_search [of ?q 10 "0.7"] by (simp add: example_store_def)
  note t1 = search_clamps_k_and_checks_labels [of example_world example_store example_store 10 ?q
      "Some 10" "[two_sum, reverse_list]" "[0, 1, 7]" "[Fin 0.9, Fin 0.5, Fin 0.95]" "[?r1, ?r2]"]
  note t2 = search_clamps_k_and_checks_labels [of example_world ?cold "example_store\<lparr>documents := []\<rparr>"
      10 ?q None]
  from t1 i1 h1 have c1: "search example_world ?q (Some 10) example_store
     = search example_world ?q (Some 2) example_store"
    by (simp only: n)
  from t2 i2 h2 have c2: "search example_world ?q None ?cold
     = Inr ([], [], example_store\<lparr>documents := []\<rparr>)"
    by blast
  from t1 e have "\<forall>r \<in> set [?r1]. document r \<in> set (documents example_store)"
    by blast
  then have c3: "two_sum \<in> set (documents example_store)" by simp
  from t1 example_format_results
  have "\<forall>r \<in> set [?r1, ?r2]. 1 \<le> rank r \<and> rank r \<le> length [0::int, 1, 7] \<and>
            0 \<le> [0::int, 1, 7] ! (rank r - 1) \<and>
            [0::int, 1, 7] ! (rank r - 1) < int (length [two_sum, reverse_list]) \<and>
            document r = [two_sum, reverse_list] ! nat ([0::int, 1, 7] ! (rank r - 1))"
    by blast
  then have c4: "(0::int) \<le> [0, 1, 7] ! (2 - 1) \<and> [0, 1, 7] ! (2 - 1) < int (length [two_sum, reverse_list])"
    by simp
  show ?thesis
    using i1 h1 c1 i2 c2 e c3 example_format_results c4 by blast
qed

lemma similarityThreshold_of_env_truthy:
  "t \<noteq> NaN \<Longrightarrow> t \<noteq> Fin 0 \<Longrightarrow> similarityThreshold_of_env t = t"
  by (simp add: similarityThreshold_of_env_def)

lemma similarityThreshold_of_env_zero:
  "similarityThreshold_of_env (Fin 0) = Fin 0.7" "similarityThreshold_of_env NaN = Fin 0.7"
  "similarityThreshold_of_env (Fin 0.3) = Fin 0.3"
  by (simp_all add: similarityThreshold_of_env_def)

lemma search_never_below_configured:
  assumes "search w q k (new_faiss_service tk t) = Inr (rs, calls, sv1)"
  shows "\<forall>r \<in> set rs. \<not> num_lt (score r) t"
proof
  fix r assume "r \<in> set rs"
  with search_results_above_threshold [OF assms]
  have ge: "num_ge (score r) (similarityThreshold_of_env t)"
    by (simp add: new_faiss_service_def)
  show "\<not> num_lt (score r) t"
  proof (cases "t = NaN \<or> t = Fin 0")
    case False
    with ge show ?thesis
      by (simp add: similarityThreshold_of_env_def num_ge_not_lt)
  next
    case True
    with ge have "num_ge (score r) (Fin 0.7)"
      by (simp add: similarityThreshold_of_env_def)
    with True show ?thesis
      by (cases "score r") auto
  qed
qed

lemma search_configured_same_candidates:
  "search loaded_world q (Some 2) (new_faiss_service None (Fin t)) =
     Inr (filter (\<lambda>r. num_ge (score r) (similarityThreshold_of_env (Fin t)))
            [\<lparr>document = two_sum, score = Fin 0.9, rank = 1\<rparr>,
             \<lparr>document = reverse_list, score = Fin 0.5, rank = 2\<rparr>],
          [EmbedCall q, IndexSearchCall [Fin 1, Fin 0] 2],
          (new_faiss_service None (Fin t))\<lparr> documents := [two_sum, reverse_list], isInitialized := True \<rparr>)"
  by (simp add: search_def search_body_def loaded_world_def example_world_def new_faiss_service_def
        ensure_initialized_def initialize_def or_default_def Let_def)

lemma search_configured_monotone:
  assumes "t1 \<noteq> NaN" "t1 \<noteq> Fin 0" "t2 \<noteq> NaN" "t2 \<noteq> Fin 0" and "num_le t1 t2"
    and "search w q k (new_faiss_service tk t2) = Inr (rs2, calls2, sv2)"
  shows "\<exists>rs1 calls1 sv1. search w q k (new_faiss_service tk t1) = Inr (rs1, calls1, sv1) \<and>
           set rs2 \<subseteq> set rs1"
proof -
  have "new_faiss_service tk t = (new_faiss_service tk NaN)\<lparr> similarityThreshold := t \<rparr>"
    if "t \<noteq> NaN" "t \<noteq> Fin 0" for t
    using that by (simp add: new_faiss_service_def similarityThreshold_of_env_def)
  with assms(1-4) have
    "new_faiss_service tk t1 = (new_faiss_service tk NaN)\<lparr> similarityThreshold := t1 \<rparr>"
    "new_faiss_service tk t2 = (new_faiss_service tk NaN)\<lparr> similarityThreshold := t2 \<rparr>"
    by blast+
  with search_threshold_monotone [OF assms(5), of w q k "new_faiss_service tk NaN" rs2 calls2 sv2] assms(6)
  show ?thesis by simp
qed

text \<open>
  With the constructor in front of \<open>search\<close>, the threshold is the configured one. No
  result has a score below it (\<open>search_never_below_configured\<close>), and among the
  configured values that the constructor takes as they are, every value but zero and
  \<open>NaN\<close>, a lower threshold returns every result of a higher one
  (\<open>search_configured_monotone\<close>).
\<close>

text \<open>
  C3. Lowering the configured threshold to zero removes a result.
  \<open>parseFloat(...) || 0.7\<close> reads the configured threshold zero as 0.7. For one query, one
  corpus and one index, the service configured with 0.3 returns the results with scores
  0.9 and 0.5, and the service configured with the lower threshold 0 returns only the
  first.
\<close>

theorem configured_threshold_zero_drops_result:
  "num_le (Fin 0) (Fin 0.3) \<and>
   map_sum id fst (search loaded_world ''pair with given sum'' (Some 2) (new_faiss_service None (Fin 0.3)))
     = Inr [\<lparr>document = two_sum, score = Fin 0.9, rank = 1\<rparr>,
            \<lparr>document = reverse_list, score = Fin 0.5, rank = 2\<rparr>] \<and>
   map_sum id fst (search loaded_world ''pair with given sum'' (Some 2) (new_faiss_service None (Fin 0)))
     = Inr [\<lparr>document = two_sum, score = Fin 0.9, rank = 1\<rparr>] \<and>
   similarityThreshold (new_faiss_service None (Fin 0)) = Fin 0.7 \<and>
   \<lparr>document = reverse_list, score = Fin 0.5, rank = 2\<rparr>
     \<notin> set [\<lparr>document = two_sum, score = Fin 0.9, rank = 1\<rparr>]"
proof -
  have "num_le (Fin 0) (Fin 0.3)"
    by (simp add: num_le_def)
  moreover have "map_sum id fst (search loaded_world ''pair with given sum'' (Some 2)
                   (new_faiss_service None (Fin 0.3)))
     = Inr [\<lparr>document = two_sum, score = Fin 0.9, rank = 1\<rparr>,
            \<lparr>document = reverse_list, score = Fin 0.5, rank = 2\<rparr>]"
    by (simp add: search_configured_same_candidates similarityThreshold_of_env_def)
  moreover have "map_sum id fst (search loaded_world ''pair with given sum'' (Some 2)
                   (new_faiss_service None (Fin 0)))
     = Inr [\<lparr>document = two_sum, score = Fin 0.9, rank = 1\<rparr>]"
    by (simp add: search_configured_same_candidates similarityThreshold_of_env_def)
  moreover have "similarityThreshold (new_faiss_service None (Fin 0)) = Fin 0.7"
    by (simp add: new_faiss_service_def similarityThreshold_of_env_def)
  moreover have "\<lparr>document = reverse_list, score = Fin 0.5, rank = 2\<rparr>
     \<notin> set [\<lparr>document = two_sum, score = Fin 0.9, rank = 1\<rparr>]"
    by simp
  ultimately show ?thesis by blast
qed

section \<open>Properties of the retrieval pipeline\<close>

lemma search_body_embed_fails:
  "embed w q = Inl e \<Longrightarrow> fst (search_body w q k sv) = []"
  by (simp add: search_body_def Let_def)

lemma search_body_index_fails:
  "\<forall>v n. index_search w v n = Inl e \<Longrightarrow> fst (search_body w q k sv) = []"
  by (simp add: search_body_def Let_def split: sum.splits)

lemma retrieveContext_no_results:
  assumes "\<And>k sv1. ensure_initialized w sv = Inr sv1 \<Longrightarrow> fst (search_body w q k sv1) = []"
  shows "fst (retrieveContext w pl q options sv) = \<lparr> context_text = [], sources = [] \<rparr>"
proof -
  let ?k = "Some (case opt_topK options of None \<Rightarrow> pipeline_topK pl
                  | Some k \<Rightarrow> if k = 0 then pipeline_topK pl else k)"
  show ?thesis
  proof (cases "search w q ?k sv")
    case (Inl e)
    then show ?thesis by (simp add: retrieveContext_def Let_def)
  next
    case (Inr res)
    obtain rs calls sv1 where res: "res = (rs, calls, sv1)" by (cases res)
    with Inr have "ensure_initialized w sv = Inr sv1" "search_body w q ?k sv1 = (rs, calls)"
      by (simp_all add: search_Inr_iff)
    with assms [of sv1 ?k] have "rs = []" by simp
    with Inr res show ?thesis by (simp add: retrieveContext_def Let_def)
  qed
qed

text \<open>
  C7. \<open>retrieveContext\<close> returns a value in every case. When the embedding provider
  fails, when the index search fails, and when an error leaves \<open>search\<close> itself (the
  native index cannot be created during initialization), the value is the empty context
  with the empty list of sources.
\<close>

theorem retrieveContext_fails_soft:
  "(embed w q = Inl e \<longrightarrow>
      fst (retrieveContext w pl q options sv) = \<lparr> context_text = [], sources = [] \<rparr>) \<and>
   ((\<forall>v n. index_search w v n = Inl e) \<longrightarrow>
      fst (retrieveContext w pl q options sv) = \<lparr> context_text = [], sources = [] \<rparr>) \<and>
   ((\<exists>k. search w q k sv = Inl e) \<longrightarrow>
      retrieveContext w pl q options sv = (\<lparr> context_text = [], sources = [] \<rparr>, []))"
proof (intro conjI impI)
  assume "embed w q = Inl e"
  then show "fst (retrieveContext w pl q options sv) = \<lparr> context_text = [], sources = [] \<rparr>"
    by (intro retrieveContext_no_results search_body_embed_fails)
next
  assume "\<forall>v n. index_search w v n = Inl e"
  then show "fst (retrieveContext w pl q options sv) = \<lparr> context_text = [], sources = [] \<rparr>"
    by (intro retrieveContext_no_results search_body_index_fails)
next
  assume "\<exists>k. search w q k sv = Inl e"
  then have "ensure_initialized w sv = Inl e"
    by (cases "ensure_initialized w sv") (auto simp: search_def Let_def split: prod.splits)
  then show "retrieveContext w pl q options sv = (\<lparr> context_text = [], sources = [] \<rparr>, [])"
    by (simp add: retrieveContext_def search_def Let_def)
qed

theorem retrieveContext_fails_soft_witness:
  "embed failing_world ''two sum'' = Inl (ProviderError ''connection refused'') \<and>
   fst (retrieveContext failing_world example_pipeline ''two sum''
          \<lparr> opt_topK = Some 2, opt_contextFormat = Some ''full'' \<rparr> example_store)
     = \<lparr> context_text = [], sources = [] \<rparr> \<and>
   search broken_world ''two sum'' None (example_store\<lparr> isInitialized := False \<rparr>)
     = Inl (ProviderError ''invalid dimension'') \<and>
   retrieveContext broken_world example_pipeline ''two sum''
          \<lparr> opt_topK = Some 2, opt_contextFormat = Some ''full'' \<rparr> (example_store\<lparr> isInitialized := False \<rparr>)
     = (\<lparr> context_text = [], sources = [] \<rparr>, []) \<and>
   (\<forall>v n. index_search (example_world\<lparr> index_search := (\<lambda>v n. Inl TypeError) \<rparr>) v n = Inl TypeError) \<and>
   fst (retrieveContext (example_world\<lparr> index_search := (\<lambda>v n. Inl TypeError) \<rparr>) example_pipeline
          ''two sum'' \<lparr> opt_topK = Some 2, opt_contextFormat = Some ''full'' \<rparr> example_store)
     = \<lparr> context_text = [], sources = [] \<rparr>"
proof -
  let ?opts = "\<lparr> opt_topK = Some 2, opt_contextFormat = Some ''full'' \<rparr>"
  let ?cold = "example_store\<lparr> isInitialized := False \<rparr>"
  let ?noindex = "example_world\<lparr> index_search := (\<lambda>v n. Inl TypeError) \<rparr>"
  have h1: "embed failing_world ''two sum'' = Inl (ProviderError ''connection refused'')"
    by (simp add: failing_world_def example_world_def)
  have h2: "search broken_world ''two sum'' None ?cold = Inl (ProviderError ''invalid dimension'')"
    by (simp add: search_def ensure_initialized_def initialize_def broken_world_def
          example_world_def example_store_def)
  have h3: "\<forall>v n. index_search ?noindex v n = Inl TypeError"
    by simp
  from retrieveContext_fails_soft [of failing_world "''two sum''" "ProviderError ''connection refused''"
         example_pipeline ?opts example_store] h1
  have c1: "fst (retrieveContext failing_world example_pipeline ''two sum'' ?opts example_store)
     = \<lparr> context_text = [], sources = [] \<rparr>"
    by blast
  from retrieveContext_fails_soft [of broken_world "''two sum''" "ProviderError ''invalid dimension''"
         example_pipeline ?opts ?cold] h2
  have c2: "retrieveContext broken_world example_pipeline ''two sum'' ?opts ?cold
     = (\<lparr> context_text = [], sources = [] \<rparr>, [])"
    by blast
  from retrieveContext_fails_soft [of ?noindex "''two sum''" TypeError example_pipeline ?opts example_store] h3
  have c3: "fst (retrieveContext ?noindex example_pipeline ''two sum'' ?opts example_store)
     = \<lparr> context_text = [], sources = [] \<rparr>"
    by blast
  show ?thesis
    using h1 c1 h2 c2 h3 c3 by blast
qed











subsection \<open>The hints format\<close>

lemma hints_line_cong:
  "title d = title d' \<Longrightarrow> tags d = tags d' \<Longrightarrow> hints_line d = hints_line d'"
  by (simp add: hints_line_def tags_text_def)

lemma hints_lines_cong:
  assumes "list_all2 (\<lambda>r r'. title (document r) = title (document r') \<and>
                             tags (document r) = tags (document r')) rs rs'"
  shows "map (\<lambda>r. hints_line (document r)) rs = map (\<lambda>r. hints_line (document r)) rs'"
  using assms by (induction rule: list_all2_induct) (auto intro: hints_line_cong)

lemma render_hints_cong:
  assumes "list_all2 (\<lambda>r r'. title (document r) = title (document r') \<and>
                             tags (document r) = tags (document r')) rs rs'"
  shows "render_context ''hints'' c rs = render_context ''hints'' c' rs'"
  by (simp add: render_context_def hints_lines_cong [OF assms])

lemma format_results_same_listing:
  assumes "list_all2 same_listing docs docs'" and "list_all2 same_result results results'"
  shows "rel_sum (=) (list_all2 same_result)
           (format_results docs labels distances i results)
           (format_results docs' labels distances i results')"
  using assms
proof (induction docs labels distances i results arbitrary: results' rule: format_results.induct)
  case (1 docs labels distances i results)
  have len: "length docs' = length docs"
    using "1.prems"(1) by (simp add: list_all2_lengthD)
  show ?case
  proof (cases "i < length labels")
    case False
    with "1.prems"(2) show ?thesis by simp
  next
    case True
    show ?thesis
    proof (cases "i < length distances")
      case False
      with True show ?thesis by simp
    next
      case d: True
      let ?idx = "labels ! i"
      let ?ok = "?idx \<ge> 0 \<and> ?idx < int (length docs)"
      let ?new = "(if ?ok then results @ [\<lparr> document = docs ! nat ?idx, score = distances ! i, rank = i + 1 \<rparr>]
                  else results)"
      let ?new' = "(if ?ok then results' @ [\<lparr> document = docs' ! nat ?idx, score = distances ! i, rank = i + 1 \<rparr>]
                  else results')"
      have rel: "list_all2 same_result ?new ?new'"
      proof (cases ?ok)
        case False
        with "1.prems"(2) show ?thesis by auto
      next
        case ok: True
        then have "nat ?idx < length docs" by (simp add: nat_less_iff)
        with "1.prems"(1) have "same_listing (docs ! nat ?idx) (docs' ! nat ?idx)"
          by (rule list_all2_nthD)
        then have "same_result \<lparr> document = docs ! nat ?idx, score = distances ! i, rank = i + 1 \<rparr>
                               \<lparr> document = docs' ! nat ?idx, score = distances ! i, rank = i + 1 \<rparr>"
          by (simp add: same_result_def)
        with "1.prems"(2) ok show ?thesis
          by (simp add: list_all2_appendI)
      qed
      have "rel_sum (=) (list_all2 same_result)
              (format_results docs labels distances (i + 1) ?new)
              (format_results docs' labels distances (i + 1) ?new')"
        by (rule "1.IH" [OF True d refl refl "1.prems"(1) rel])
      moreover have "format_results docs labels distances i results
                       = format_results docs labels distances (i + 1) ?new"
        using True d by (subst format_results.simps) (simp add: Let_def)
      moreover have "format_results docs' labels distances i results'
                       = format_results docs' labels distances (i + 1) ?new'"
        using True d by (subst format_results.simps) (simp add: Let_def len)
      ultimately show ?thesis by simp
    qed
  qed
qed

lemma filter_same_result:
  assumes "list_all2 same_result rs rs'"
  shows "list_all2 same_result (filter (\<lambda>r. num_ge (score r) t) rs) (filter (\<lambda>r. num_ge (score r) t) rs')"
  using assms by (induction rule: list_all2_induct) (auto simp: same_result_def)

lemma search_body_same_listing:
  assumes "list_all2 same_listing (documents sv) docs'"
  shows "list_all2 same_result (fst (search_body w q k sv))
                               (fst (search_body w q k (sv\<lparr> documents := docs' \<rparr>)))"
proof -
  let ?sv' = "sv\<lparr> documents := docs' \<rparr>"
  have len: "length docs' = length (documents sv)"
    using assms by (simp add: list_all2_lengthD)
  let ?k2 = "min (case k of None \<Rightarrow> topK sv | Some n \<Rightarrow> if n = 0 then topK sv else n)
                 (int (length (documents sv)))"
  have kk: "(case k of None \<Rightarrow> topK ?sv' | Some n \<Rightarrow> if n = 0 then topK ?sv' else n)
            = (case k of None \<Rightarrow> topK sv | Some n \<Rightarrow> if n = 0 then topK sv else n)"
    by (cases k) simp_all
  show ?thesis
  proof (cases "documents sv = []")
    case True
    with len show ?thesis by (simp add: search_body_def)
  next
    case docs: False
    with len have docs': "docs' \<noteq> []" by auto
    show ?thesis
    proof (cases "embed w q")
      case (Inl e)
      with docs docs' show ?thesis by (simp add: search_body_def Let_def)
    next
      case (Inr qe)
      show ?thesis
      proof (cases "index_search w (normalizeVector w qe) ?k2")
        case (Inl e)
        with docs docs' Inr show ?thesis by (simp add: search_body_def Let_def kk len)
      next
        case ix: (Inr p)
        obtain labels distances where p: "p = (labels, distances)" by (cases p)
        from format_results_same_listing [OF assms, of "[]" "[]" labels distances 0]
        have fr: "rel_sum (=) (list_all2 same_result)
                    (format_results (documents sv) labels distances 0 [])
                    (format_results docs' labels distances 0 [])"
          by simp
        show ?thesis
        proof (cases "format_results (documents sv) labels distances 0 []")
          case (Inl e)
          with fr obtain e' where "format_results docs' labels distances 0 [] = Inl e'"
            by (cases "format_results docs' labels distances 0 []") simp_all
          with Inl docs docs' Inr ix p show ?thesis
            by (simp add: search_body_def Let_def kk len)
        next
          case rs: (Inr rs)
          with fr obtain rs' where rs': "format_results docs' labels distances 0 [] = Inr rs'"
            and rel: "list_all2 same_result rs rs'"
            by (cases "format_results docs' labels distances 0 []") simp_all
          from filter_same_result [OF rel, of "similarityThreshold sv"]
          show ?thesis
            using rs rs' docs docs' Inr ix p by (simp add: search_body_def Let_def kk len)
        qed
      qed
    qed
  qed
qed

lemma ensure_initialized_same_listing:
  assumes "list_all2 same_listing (documents sv) docs'"
  shows "(\<exists>e. ensure_initialized w sv = Inl e \<and> ensure_initialized w (sv\<lparr> documents := docs' \<rparr>) = Inl e) \<or>
         (\<exists>v ds. ensure_initialized w sv = Inr v \<and>
                  ensure_initialized w (sv\<lparr> documents := docs' \<rparr>) = Inr (v\<lparr> documents := ds \<rparr>) \<and>
                  list_all2 same_listing (documents v) ds)"
proof (cases "isInitialized sv")
  case True
  then have "ensure_initialized w sv = Inr sv"
    "ensure_initialized w (sv\<lparr> documents := docs' \<rparr>) = Inr (sv\<lparr> documents := docs' \<rparr>)"
    by (simp_all add: ensure_initialized_def)
  with assms show ?thesis by blast
next
  case False
  have refl: "list_all2 same_listing ds ds" for ds
    by (simp add: list_all2_same same_listing_def)
  show ?thesis
  proof (cases "initialize w sv")
    case (Inl e)
    with False show ?thesis
      by (auto simp: ensure_initialized_def initialize_def split: option.splits)
  next
    case (Inr v)
    with False have "ensure_initialized w sv = Inr v"
      "ensure_initialized w (sv\<lparr> documents := docs' \<rparr>) = Inr (v\<lparr> documents := documents v \<rparr>)"
      by (auto simp: ensure_initialized_def initialize_def split: option.splits)
    with refl [of "documents v"] show ?thesis by blast
  qed
qed

lemma same_result_listing:
  "list_all2 same_result rs rs' \<Longrightarrow>
   list_all2 (\<lambda>r r'. title (document r) = title (document r') \<and>
                      tags (document r) = tags (document r')) rs rs'"
  by (erule list_all2_mono) (simp add: same_result_def same_listing_def)

lemma retrieveContext_hints_same_listing:
  assumes "list_all2 same_listing (documents sv) docs'"
  shows "context_text (fst (retrieveContext w pl q \<lparr> opt_topK = k, opt_contextFormat = Some ''hints'' \<rparr>
                              (sv\<lparr> documents := docs' \<rparr>)))
       = context_text (fst (retrieveContext w pl q \<lparr> opt_topK = k, opt_contextFormat = Some ''hints'' \<rparr> sv))"
proof -
  let ?k = "Some (case k of None \<Rightarrow> pipeline_topK pl | Some n \<Rightarrow> if n = 0 then pipeline_topK pl else n)"
  from ensure_initialized_same_listing [OF assms, of w] show ?thesis
  proof
    assume "\<exists>e. ensure_initialized w sv = Inl e \<and> ensure_initialized w (sv\<lparr> documents := docs' \<rparr>) = Inl e"
    then show ?thesis by (auto simp: retrieveContext_def search_def Let_def)
  next
    assume "\<exists>v ds. ensure_initialized w sv = Inr v \<and>
                  ensure_initialized w (sv\<lparr> documents := docs' \<rparr>) = Inr (v\<lparr> documents := ds \<rparr>) \<and>
                  list_all2 same_listing (documents v) ds"
    then obtain v ds where i: "ensure_initialized w sv = Inr v"
      and i': "ensure_initialized w (sv\<lparr> documents := docs' \<rparr>) = Inr (v\<lparr> documents := ds \<rparr>)"
      and rel: "list_all2 same_listing (documents v) ds"
      by blast
    obtain rs calls where b: "search_body w q ?k v = (rs, calls)"
      by (cases "search_body w q ?k v")
    obtain rs' calls' where b': "search_body w q ?k (v\<lparr> documents := ds \<rparr>) = (rs', calls')"
      by (cases "search_body w q ?k (v\<lparr> documents := ds \<rparr>)")
    from search_body_same_listing [OF rel, of w q ?k] b b'
    have r: "list_all2 same_result rs rs'" by simp
    then have "length rs' = length rs" by (simp add: list_all2_lengthD)
    then have len: "rs' = [] \<longleftrightarrow> rs = []" by (metis length_0_conv)
    from render_hints_cong [OF same_result_listing [OF r]]
    have "render_context ''hints'' (chunkSize pl) rs = render_context ''hints'' (chunkSize pl) rs'" .
    with i i' b b' len show ?thesis
      by (cases "rs = []") (simp_all add: retrieveContext_def search_def Let_def)
  qed
qed

text \<open>
  C4. The hints format is the lines \<open>Similar: title - Tags: tags\<close> joined by the
  separator, built from the title and the tag list of each result and from nothing else
  of it. So two lists of search results that agree, result by result, in title and tags
  give the same hints context, whatever their approach, problem and other fields hold;
  and two corpora that agree, document by document, in title and tags give the same hints
  context from \<open>retrieveContext\<close>, for the same answers of the embedding provider and the
  index.
\<close>

theorem hints_context_hides_approach:
  "render_context ''hints'' c rs
     = join ([CHR 0x0A] @ ''---'' @ [CHR 0x0A])
         (map (\<lambda>r. ''Similar: '' @ interpolate (title (document r)) @ '' - Tags: '' @
                    (case tags (document r) of None \<Rightarrow> ''N/A''
                     | Some ts \<Rightarrow> or_else (join '', '' ts) ''N/A'')) rs) \<and>
   (list_all2 (\<lambda>r r'. title (document r) = title (document r') \<and>
                       tags (document r) = tags (document r')) rs rs' \<longrightarrow>
      render_context ''hints'' c rs = render_context ''hints'' c' rs') \<and>
   (list_all2 same_listing (documents sv) docs' \<longrightarrow>
      context_text (fst (retrieveContext w pl q \<lparr> opt_topK = k, opt_contextFormat = Some ''hints'' \<rparr>
                           (sv\<lparr> documents := docs' \<rparr>)))
        = context_text (fst (retrieveContext w pl q \<lparr> opt_topK = k, opt_contextFormat = Some ''hints'' \<rparr> sv)))"
proof (intro conjI impI)
  show "render_context ''hints'' c rs
     = join ([CHR 0x0A] @ ''---'' @ [CHR 0x0A])
         (map (\<lambda>r. ''Similar: '' @ interpolate (title (document r)) @ '' - Tags: '' @
                    (case tags (document r) of None \<Rightarrow> ''N/A''
                     | Some ts \<Rightarrow> or_else (join '', '' ts) ''N/A'')) rs)"
    by (simp add: render_context_def hints_line_def tags_text_def)
next
  assume "list_all2 (\<lambda>r r'. title (document r) = title (document r') \<and>
                       tags (document r) = tags (document r')) rs rs'"
  then show "render_context ''hints'' c rs = render_context ''hints'' c' rs'"
    by (rule render_hints_cong)
next
  assume "list_all2 same_listing (documents sv) docs'"
  then show "context_text (fst (retrieveContext w pl q \<lparr> opt_topK = k, opt_contextFormat = Some ''hints'' \<rparr>
                           (sv\<lparr> documents := docs' \<rparr>)))
        = context_text (fst (retrieveContext w pl q \<lparr> opt_topK = k, opt_contextFormat = Some ''hints'' \<rparr> sv))"
    by (rule retrieveContext_hints_same_listing)
qed

theorem hints_context_hides_approach_witness:
  "list_all2 (\<lambda>r r'. title (document r) = title (document r') \<and> tags (document r) = tags (document r'))
     [\<lparr> document = two_sum, score = Fin 0.9, rank = 1 \<rparr>]
     [\<lparr> document = two_sum\<lparr> approach := Some ''Sort, then move two pointers.'', doc_problem := None \<rparr>,
        score = Fin 0.9, rank = 1 \<rparr>] \<and>
   render_context ''hints'' 500 [\<lparr> document = two_sum, score = Fin 0.9, rank = 1 \<rparr>]
     = render_context ''hints'' 500
         [\<lparr> document = two_sum\<lparr> approach := Some ''Sort, then move two pointers.'', doc_problem := None \<rparr>,
            score = Fin 0.9, rank = 1 \<rparr>] \<and>
   render_context ''hints'' 500 [\<lparr> document = two_sum, score = Fin 0.9, rank = 1 \<rparr>]
     = ''Similar: Two Sum - Tags: array, hashmap'' \<and>
   list_all2 same_listing (documents example_store)
     [two_sum\<lparr> approach := Some ''Sort, then move two pointers.'' \<rparr>, reverse_list\<lparr> approach := None \<rparr>] \<and>
   context_text (fst (retrieveContext example_world example_pipeline ''pair with given sum''
                        \<lparr> opt_topK = Some 2, opt_contextFormat = Some ''hints'' \<rparr>
                        (example_store\<lparr> documents :=
                           [two_sum\<lparr> approach := Some ''Sort, then move two pointers.'' \<rparr>,
                            reverse_list\<lparr> approach := None \<rparr>] \<rparr>)))
     = context_text (fst (retrieveContext example_world example_pipeline ''pair with given sum''
                        \<lparr> opt_topK = Some 2, opt_contextFormat = Some ''hints'' \<rparr> example_store))"
proof -
  let ?r = "\<lparr> document = two_sum, score = Fin 0.9, rank = 1 \<rparr>"
  let ?r' = "\<lparr> document = two_sum\<lparr> approach := Some ''Sort, then move two pointers.'', doc_problem := None \<rparr>,
               score = Fin 0.9, rank = 1 \<rparr>"
  let ?docs' = "[two_sum\<lparr> approach := Some ''Sort, then move two pointers.'' \<rparr>, reverse_list\<lparr> approach := None \<rparr>]"
  have h1: "list_all2 (\<lambda>r r'. title (document r) = title (document r') \<and> tags (document r) = tags (document r'))
              [?r] [?r']"
    by simp
  have h2: "list_all2 same_listing (documents example_store) ?docs'"
    by (simp add: example_store_def same_listing_def)
  note t = hints_context_hides_approach [of 500 "[?r]" "[?r']" 500 example_store ?docs' example_world
      example_pipeline "''pair with given sum''" "Some 2"]
  from t h1 have c1: "render_context ''hints'' 500 [?r] = render_context ''hints'' 500 [?r']"
    by blast
  from t have "render_context ''hints'' 500 [?r]
     = join ([CHR 0x0A] @ ''---'' @ [CHR 0x0A])
         (map (\<lambda>r. ''Similar: '' @ interpolate (title (document r)) @ '' - Tags: '' @
                    (case tags (document r) of None \<Rightarrow> ''N/A''
                     | Some ts \<Rightarrow> or_else (join '', '' ts) ''N/A'')) [?r])"
    by blast
  then have c2: "render_context ''hints'' 500 [?r] = ''Similar: Two Sum - Tags: array, hashmap''"
    by (simp add: two_sum_def interpolate_def or_else_def)
  from t h2 have c3: "context_text (fst (retrieveContext example_world example_pipeline ''pair with given sum''
                        \<lparr> opt_topK = Some 2, opt_contextFormat = Some ''hints'' \<rparr>
                        (example_store\<lparr> documents := ?docs' \<rparr>)))
     = context_text (fst (retrieveContext example_world example_pipeline ''pair with given sum''
                        \<lparr> opt_topK = Some 2, opt_contextFormat = Some ''hints'' \<rparr> example_store))"
    by blast
  show ?thesis
    using h1 c1 c2 h2 c3 by blast
qed

end
